theory Spec2Isabelle
  imports Main "HOL-Library.Word" "HOL-Library.Sublist" "HOL-Library.AList"
begin

section \<open>JavaScript strings\<close>

text \<open>
  A JavaScript string is a sequence of UTF-16 code units. The literals of
  \<^verbatim>\<open>src/lib/gpt.ts\<close> are ASCII apart from one dash (U+2013) and one warning sign
  (U+26A0 U+FE0F) in the prompt; \<open>js\<close> embeds an ASCII literal.
\<close>

type_synonym jsstring = "16 word list"

definition js :: "string \<Rightarrow> jsstring" where
  "js s = map of_char s"

abbreviation backtick :: "16 word" where "backtick \<equiv> 0x60"
abbreviation single_quote :: "16 word" where "single_quote \<equiv> 0x27"
abbreviation double_quote :: "16 word" where "double_quote \<equiv> 0x22"
abbreviation comma :: "16 word" where "comma \<equiv> 0x2C"
abbreviation lbrace :: "16 word" where "lbrace \<equiv> 0x7B"
abbreviation rbrace :: "16 word" where "rbrace \<equiv> 0x7D"
abbreviation lbracket :: "16 word" where "lbracket \<equiv> 0x5B"
abbreviation rbracket :: "16 word" where "rbracket \<equiv> 0x5D"
abbreviation less_sign :: "16 word" where "less_sign \<equiv> 0x3C"
abbreviation greater_sign :: "16 word" where "greater_sign \<equiv> 0x3E"

text \<open>
  The class \<^verbatim>\<open>\s\<close> of a regular expression, which is also what
  \<^verbatim>\<open>String.prototype.trim\<close> removes: the white space and the line terminators
  of ECMAScript.
\<close>

definition is_space :: "16 word \<Rightarrow> bool" where
  "is_space c =
     (c \<in> {0x09, 0x0A, 0x0B, 0x0C, 0x0D, 0x20, 0xA0, 0x1680, 0x2028, 0x2029,
            0x202F, 0x205F, 0x3000, 0xFEFF}
      \<or> (0x2000 \<le> c \<and> c \<le> 0x200A))"

text \<open>What \<^verbatim>\<open>.\<close> of a regular expression does not match.\<close>

definition is_line_terminator :: "16 word \<Rightarrow> bool" where
  "is_line_terminator c = (c \<in> {0x0A, 0x0D, 0x2028, 0x2029})"

definition trim :: "jsstring \<Rightarrow> jsstring" where
  "trim s = rev (dropWhile is_space (rev (dropWhile is_space s)))"

text \<open>\<^verbatim>\<open>xs.join(sep)\<close>\<close>

fun join :: "jsstring \<Rightarrow> jsstring list \<Rightarrow> jsstring" where
  "join sep [] = []"
| "join sep [x] = x"
| "join sep (x # y # ys) = x @ sep @ join sep (y # ys)"

section \<open>Clean up of the provider's text (lines 59 to 64)\<close>

text \<open>
  \<^verbatim>\<open>res.replace(/```json|```/g, "")\<close>: one pass from the left; at each position the
  longer marker is tried first, a match is dropped and the scan goes on behind it.
\<close>

fun remove_fences :: "jsstring \<Rightarrow> jsstring" where
  "remove_fences [] = []"
| "remove_fences (c # cs) =
    (if prefix (js ''```json'') (c # cs) then remove_fences (drop 6 cs)
     else if prefix (js ''```'') (c # cs) then remove_fences (drop 2 cs)
     else c # remove_fences cs)"

text \<open>\<^verbatim>\<open>res.replace(/'/g, '"')\<close>\<close>

definition single_to_double :: "jsstring \<Rightarrow> jsstring" where
  "single_to_double s = map (\<lambda>c. if c = single_quote then double_quote else c) s"

text \<open>
  \<^verbatim>\<open>res.replace(/,\s*([}\]])/g, "$1")\<close>: one pass from the left. At a comma the
  greedy \<^verbatim>\<open>\s*\<close> takes all the white space that follows; when the next code unit
  is a closing brace or bracket, the comma and the white space go and the scan
  resumes at the closer, which is kept.
\<close>

definition closer_next :: "jsstring \<Rightarrow> bool" where
  "closer_next cs = (case cs of [] \<Rightarrow> False | c # _ \<Rightarrow> c = rbrace \<or> c = rbracket)"

function remove_trailing_commas :: "jsstring \<Rightarrow> jsstring" where
  "remove_trailing_commas [] = []"
| "remove_trailing_commas (c # cs) =
    (if c = comma \<and> closer_next (dropWhile is_space cs)
     then remove_trailing_commas (dropWhile is_space cs)
     else c # remove_trailing_commas cs)"
  by pat_completeness auto
termination
  by (relation "measure length") (auto simp: le_imp_less_Suc length_dropWhile_le)

text \<open>
  \<^verbatim>\<open>res.match(/\{[\s\S]*\}|\[[\s\S]*\]/)\<close>: the leftmost position at which one of
  the two alternatives matches. \<^verbatim>\<open>[\s\S]*\<close> is greedy, so a match that starts at
  an opening brace runs to the last closing brace of the text (and likewise for
  brackets). \<open>None\<close> is the \<^verbatim>\<open>null\<close> of a failed match.
\<close>

definition through_last :: "16 word \<Rightarrow> jsstring \<Rightarrow> jsstring" where
  "through_last c cs = rev (dropWhile (\<lambda>x. x \<noteq> c) (rev cs))"

fun json_match :: "jsstring \<Rightarrow> jsstring option" where
  "json_match [] = None"
| "json_match (c # cs) =
    (if c = lbrace \<and> rbrace \<in> set cs then Some (c # through_last rbrace cs)
     else if c = lbracket \<and> rbracket \<in> set cs then Some (c # through_last rbracket cs)
     else json_match cs)"

text \<open>A match of the regular expression of line 64 starts at the head of \<open>s\<close>.\<close>

definition starts_span :: "jsstring \<Rightarrow> bool" where
  "starts_span s =
     (case s of
        [] \<Rightarrow> False
      | c # cs \<Rightarrow> (c = lbrace \<and> rbrace \<in> set cs) \<or> (c = lbracket \<and> rbracket \<in> set cs))"

text \<open>Lines 59 to 61, on the text that line 51 has trimmed already.\<close>

definition clean_up :: "jsstring \<Rightarrow> jsstring" where
  "clean_up res = remove_trailing_commas (single_to_double (trim (remove_fences res)))"

text \<open>
  For comparison, the span that the specification describes for line 64: the
  first balanced object or array of the text. It starts at the first opening
  brace or bracket from which the braces and brackets nest properly, and ends
  where that opener is closed. Braces inside string literals are not told apart.
\<close>

fun balanced_span :: "16 word list \<Rightarrow> jsstring \<Rightarrow> jsstring option" where
  "balanced_span stack [] = None"
| "balanced_span stack (c # cs) =
    (if c = lbrace then map_option ((#) c) (balanced_span (rbrace # stack) cs)
     else if c = lbracket then map_option ((#) c) (balanced_span (rbracket # stack) cs)
     else if c = rbrace \<or> c = rbracket then
       (case stack of
          [] \<Rightarrow> None
        | e # stack' \<Rightarrow>
            if c \<noteq> e then None
            else if stack' = [] then Some [c]
            else map_option ((#) c) (balanced_span stack' cs))
     else map_option ((#) c) (balanced_span stack cs))"

fun spec_first_balanced :: "jsstring \<Rightarrow> jsstring option" where
  "spec_first_balanced [] = None"
| "spec_first_balanced (c # cs) =
    (case (if c = lbrace then balanced_span [rbrace] cs
           else if c = lbracket then balanced_span [rbracket] cs
           else None) of
       Some m \<Rightarrow> Some (c # m)
     | None \<Rightarrow> spec_first_balanced cs)"

section \<open>Values\<close>

text \<open>
  The values that \<^verbatim>\<open>JSON.parse\<close> returns, and \<^verbatim>\<open>undefined\<close>, which line 97
  stores when it reads element 0 of an empty array. A number is an IEEE 754
  double, held as its 64 bits: \<^verbatim>\<open>strict_output\<close> never computes with one. An
  object is the list of its own properties in property order.
\<close>

datatype jsvalue =
    JUndefined
  | JNull
  | JBoolean bool
  | JNumber "64 word"
  | JString jsstring
  | JArray "jsvalue list"
  | JObject "(jsstring \<times> jsvalue) list"

type_synonym properties = "(jsstring \<times> jsvalue) list"

text \<open>
  \<^verbatim>\<open>OutputFormat\<close> (lines 3 to 5): each key has a description or a list of allowed
  values. The list is in the order in which \<^verbatim>\<open>for (const key in output_format)\<close>
  visits the keys, each key once.
\<close>

datatype format_value = Description jsstring | Options "jsstring list"

type_synonym OutputFormat = "(jsstring \<times> format_value) list"

datatype user_input = Single jsstring | Many "jsstring list"

section \<open>What the JavaScript engine and the provider supply\<close>

text \<open>
  \<^verbatim>\<open>JSON.parse\<close> and \<^verbatim>\<open>JSON.stringify\<close> are the engine's; \<open>Inl\<close> carries the
  message of the \<^verbatim>\<open>SyntaxError\<close> that \<^verbatim>\<open>JSON.parse\<close> throws. The engine also words
  the \<^verbatim>\<open>TypeError\<close> of \<^verbatim>\<open>key in item\<close> for an item that is no object and the one of
  \<^verbatim>\<open>Object.values\<close> for \<^verbatim>\<open>null\<close>. When an item is itself an array, what lines 86 to
  102 do with it depends on the properties of \<^verbatim>\<open>Array.prototype\<close>; \<open>array_item\<close>
  stands for that run of the key loop (the message thrown, or the array after
  the loop).
\<close>

record engine =
  JSON_parse :: "jsstring \<Rightarrow> jsstring + jsvalue"
  JSON_stringify :: "jsvalue \<Rightarrow> jsstring"
  in_TypeError :: "jsstring \<Rightarrow> jsvalue \<Rightarrow> jsstring"
  values_TypeError :: jsstring
  array_item :: "OutputFormat \<Rightarrow> jsstring \<Rightarrow> jsvalue list \<Rightarrow> jsstring + jsvalue"

text \<open>
  Lines 47 to 51: the text that the call number \<open>i\<close> (from 0) to the provider
  returns for a model and a prompt, or the message of the error it throws.
\<close>

type_synonym provider = "nat \<Rightarrow> jsstring \<Rightarrow> jsstring \<Rightarrow> jsstring + jsstring"

text \<open>
  The parameters of \<^verbatim>\<open>strict_output\<close> (lines 7 to 17). The body never reads
  \<^verbatim>\<open>temperature\<close>, and \<^verbatim>\<open>verbose\<close> only switches console output on.
  \<^verbatim>\<open>num_tries\<close> is an integer, which may be zero or negative.
\<close>

record config =
  system_prompt :: jsstring
  user_prompt :: user_input
  output_format :: OutputFormat
  default_category :: jsstring
  output_value_only :: bool
  model :: jsstring
  num_tries :: int

section \<open>The prompt (lines 23 to 44)\<close>

text \<open>
  \<^verbatim>\<open>JSON.stringify(output_format)\<close> is the engine's rendering of the format as a
  JSON value. Line 25 computes \<^verbatim>\<open>list_output\<close>, which nothing reads.
\<close>

definition format_to_json :: "OutputFormat \<Rightarrow> jsvalue" where
  "format_to_json fmt =
     JObject (map (\<lambda>(key, fv). (key, case fv of Description d \<Rightarrow> JString d
                                              | Options os \<Rightarrow> JArray (map JString os))) fmt)"

definition list_input :: "config \<Rightarrow> bool" where
  "list_input cfg = (case user_prompt cfg of Many _ \<Rightarrow> True | Single _ \<Rightarrow> False)"

text \<open>\<^verbatim>\<open>/<.*?>/.test(s)\<close>: a \<^verbatim>\<open><\<close> with a \<^verbatim>\<open>>\<close> later on the same line.\<close>

fun greater_on_line :: "jsstring \<Rightarrow> bool" where
  "greater_on_line [] = False"
| "greater_on_line (c # cs) =
    (if c = greater_sign then True
     else if is_line_terminator c then False
     else greater_on_line cs)"

fun has_placeholder :: "jsstring \<Rightarrow> bool" where
  "has_placeholder [] = False"
| "has_placeholder (c # cs) = ((c = less_sign \<and> greater_on_line cs) \<or> has_placeholder cs)"

definition dynamic_elements :: "engine \<Rightarrow> config \<Rightarrow> bool" where
  "dynamic_elements eng cfg =
     has_placeholder (JSON_stringify eng (format_to_json (output_format cfg)))"

definition format_instructions :: "engine \<Rightarrow> config \<Rightarrow> jsstring" where
  "format_instructions eng cfg =
     js ''\<newline>\<newline>ONLY return a valid JSON object following this shape: ''
     @ JSON_stringify eng (format_to_json (output_format cfg))
     @ js ''.\<newline>Do not wrap the JSON inside code blocks.\<newline>Do not use single quotes.\<newline>Avoid trailing commas.\<newline>Return ONLY raw valid JSON with NO explanations, NO markdown, and NO comments.\<newline>''
     @ (if list_input cfg
        then js ''\<newline>Return an array of JSON objects '' @ [0x2013] @ js '' one for each user input.''
        else [])
     @ (if dynamic_elements eng cfg
        then js ''\<newline>Any key or value wrapped in <...> must be replaced dynamically with contextually accurate content.''
        else [])
     @ js ''\<newline>\<newline>'' @ [0x26A0, 0xFE0F]
     @ js '' Output MUST be directly parsable by JavaScript's JSON.parse() '' @ [0x2013]
     @ js '' no explanation, no markdown formatting, no extra comments.''"

definition prompt :: "engine \<Rightarrow> config \<Rightarrow> jsstring \<Rightarrow> jsstring" where
  "prompt eng cfg error_msg =
     system_prompt cfg @ format_instructions eng cfg @ error_msg
     @ js ''\<newline>\<newline>INPUT:\<newline>''
     @ (case user_prompt cfg of Many xs \<Rightarrow> join (js ''\<newline>'') xs | Single x \<Rightarrow> x)"

text \<open>Line 115: the new value of \<^verbatim>\<open>error_msg\<close> after a failed attempt.\<close>

definition feedback :: "jsstring \<Rightarrow> jsstring" where
  "feedback message = js ''\<newline>\<newline>[PREVIOUS ATTEMPT FAILED: '' @ message @ js '']''"

section \<open>Validation of the parsed items (lines 85 to 108)\<close>

text \<open>
  \<^verbatim>\<open>key in item\<close> on an object made by \<^verbatim>\<open>JSON.parse\<close> finds the object's own
  properties and the properties it inherits from \<^verbatim>\<open>Object.prototype\<close>.
\<close>

definition object_prototype_names :: "jsstring list" where
  "object_prototype_names =
     map js [''constructor'', ''hasOwnProperty'', ''isPrototypeOf'', ''propertyIsEnumerable'',
             ''toLocaleString'', ''toString'', ''valueOf'', ''__proto__'',
             ''__defineGetter__'', ''__defineSetter__'', ''__lookupGetter__'',
             ''__lookupSetter__'']"

definition key_in :: "jsstring \<Rightarrow> properties \<Rightarrow> bool" where
  "key_in key item = (key \<in> fst ` set item \<or> key \<in> set object_prototype_names)"

text \<open>\<^verbatim>\<open>`Missing key '${key}' in item: ${JSON.stringify(item)}`\<close>\<close>

definition missing_key_message :: "engine \<Rightarrow> jsstring \<Rightarrow> properties \<Rightarrow> jsstring" where
  "missing_key_message eng key item =
     js ''Missing key '' @ [single_quote] @ key @ [single_quote] @ js '' in item: ''
     @ JSON_stringify eng (JObject item)"

definition is_array :: "jsvalue \<Rightarrow> bool" where
  "is_array v = (case v of JArray _ \<Rightarrow> True | _ \<Rightarrow> False)"

text \<open>\<^verbatim>\<open>v[0]\<close> for an array \<open>v\<close>: element 0, or \<^verbatim>\<open>undefined\<close> when there is none.\<close>

definition first_element :: "jsvalue \<Rightarrow> jsvalue" where
  "first_element v = (case v of JArray (x # _) \<Rightarrow> x | _ \<Rightarrow> JUndefined)"

text \<open>
  \<^verbatim>\<open>options.includes(v)\<close> for an array of strings: only a string that equals
  one of the options is included.
\<close>

definition includes_value :: "jsstring list \<Rightarrow> jsvalue \<Rightarrow> bool" where
  "includes_value options v = (case v of JString s \<Rightarrow> s \<in> set options | _ \<Rightarrow> False)"

text \<open>
  One round of the loop over the keys (lines 87 to 101) on an object. A key
  that \<^verbatim>\<open>in\<close> finds only on the prototype reads as a built-in value, which is
  no array and equals no option; the assignment of line 99 then creates an own
  property, except for \<^verbatim>\<open>__proto__\<close>, whose setter ignores a string.
\<close>

definition check_key ::
  "engine \<Rightarrow> config \<Rightarrow> jsstring \<times> format_value \<Rightarrow> properties \<Rightarrow> jsstring + properties" where
  "check_key eng cfg kf item =
     (case kf of (key, fv) \<Rightarrow>
        if \<not> key_in key item then
          (if less_sign \<notin> set key then Inl (missing_key_message eng key item) else Inr item)
        else
          (case fv of
             Description _ \<Rightarrow> Inr item
           | Options options \<Rightarrow>
               (case map_of item key of
                  Some v \<Rightarrow>
                    (let v1 = (if is_array v then first_element v else v);
                         item1 = (if is_array v then AList.update key v1 item else item)
                     in Inr (if \<not> includes_value options v1 \<and> default_category cfg \<noteq> []
                             then AList.update key (JString (default_category cfg)) item1
                             else item1))
                | None \<Rightarrow>
                    Inr (if default_category cfg \<noteq> [] \<and> key \<noteq> js ''__proto__''
                         then item @ [(key, JString (default_category cfg))]
                         else item))))"

text \<open>Lines 86 to 102: the keys in order; the first throw ends the loop.\<close>

fun check_keys ::
  "engine \<Rightarrow> config \<Rightarrow> OutputFormat \<Rightarrow> properties \<Rightarrow> jsstring + properties" where
  "check_keys eng cfg [] item = Inr item"
| "check_keys eng cfg (kf # kfs) item =
     (case check_key eng cfg kf item of
        Inl message \<Rightarrow> Inl message
      | Inr item' \<Rightarrow> check_keys eng cfg kfs item')"

text \<open>
  Lines 86 to 102 on any item. On an item that is no object and no array the
  first \<^verbatim>\<open>key in item\<close> throws a \<^verbatim>\<open>TypeError\<close>; without keys the loop does nothing.
\<close>

definition validate_item :: "engine \<Rightarrow> config \<Rightarrow> jsvalue \<Rightarrow> jsstring + jsvalue" where
  "validate_item eng cfg item =
     (case item of
        JObject props \<Rightarrow>
          (case check_keys eng cfg (output_format cfg) props of
             Inl message \<Rightarrow> Inl message
           | Inr props' \<Rightarrow> Inr (JObject props'))
      | JArray xs \<Rightarrow>
          (if output_format cfg = [] then Inr item
           else array_item eng (output_format cfg) (default_category cfg) xs)
      | _ \<Rightarrow>
          (case output_format cfg of
             [] \<Rightarrow> Inr item
           | (key, _) # _ \<Rightarrow> Inl (in_TypeError eng key item)))"

text \<open>\<^verbatim>\<open>Object.values(item)\<close>, which throws for \<^verbatim>\<open>null\<close> and \<^verbatim>\<open>undefined\<close>.\<close>

definition Object_values :: "engine \<Rightarrow> jsvalue \<Rightarrow> jsstring + jsvalue list" where
  "Object_values eng v =
     (case v of
        JObject props \<Rightarrow> Inr (map snd props)
      | JArray xs \<Rightarrow> Inr xs
      | JString s \<Rightarrow> Inr (map (\<lambda>c. JString [c]) s)
      | JNumber _ \<Rightarrow> Inr []
      | JBoolean _ \<Rightarrow> Inr []
      | JNull \<Rightarrow> Inl (values_TypeError eng)
      | JUndefined \<Rightarrow> Inl (values_TypeError eng))"

text \<open>
  One round of \<^verbatim>\<open>for (let item of outputs)\<close> (lines 85 to 108). The result has
  two parts: the element of \<^verbatim>\<open>outputs\<close> after the round (the object that lines 97
  and 99 have changed in place), and the value of the loop variable \<^verbatim>\<open>item\<close>
  after line 106. Line 106 assigns to the loop variable, not to the array.
\<close>

definition loop_body :: "engine \<Rightarrow> config \<Rightarrow> jsvalue \<Rightarrow> jsstring + jsvalue \<times> jsvalue" where
  "loop_body eng cfg item =
     (case validate_item eng cfg item of
        Inl message \<Rightarrow> Inl message
      | Inr element \<Rightarrow>
          (if output_value_only cfg then
             (case Object_values eng element of
                Inl message \<Rightarrow> Inl message
              | Inr values \<Rightarrow>
                  Inr (element, if length values = 1 then values ! 0 else JArray values))
           else Inr (element, element)))"

text \<open>Lines 85 to 110: \<^verbatim>\<open>outputs\<close> as line 110 returns it, or the first message thrown.\<close>

fun validate_outputs :: "engine \<Rightarrow> config \<Rightarrow> jsvalue list \<Rightarrow> jsstring + jsvalue list" where
  "validate_outputs eng cfg [] = Inr []"
| "validate_outputs eng cfg (item # items) =
     (case loop_body eng cfg item of
        Inl message \<Rightarrow> Inl message
      | Inr (element, item') \<Rightarrow>
          (case validate_outputs eng cfg items of
             Inl message \<Rightarrow> Inl message
           | Inr elements \<Rightarrow> Inr (element # elements)))"

section \<open>One attempt and the retry loop (lines 29 to 119)\<close>

definition no_json_message :: jsstring where
  "no_json_message = js ''No valid JSON object found.''"

definition exhausted_message :: jsstring where
  "exhausted_message = js ''All attempts failed to produce valid structured output.''"

text \<open>Line 82: \<^verbatim>\<open>Array.isArray(parsed) ? parsed : [parsed]\<close>\<close>

definition to_outputs :: "jsvalue \<Rightarrow> jsvalue list" where
  "to_outputs parsed = (case parsed of JArray xs \<Rightarrow> xs | _ \<Rightarrow> [parsed])"

text \<open>
  Lines 51 to 110 on the text of the provider: the \<^verbatim>\<open>outputs\<close> returned, or the
  message of the error that line 111 catches.
\<close>

definition attempt_body :: "engine \<Rightarrow> config \<Rightarrow> jsstring \<Rightarrow> jsstring + jsvalue list" where
  "attempt_body eng cfg response =
     (let res = clean_up (trim response) in
      case json_match res of
        None \<Rightarrow> Inl no_json_message
      | Some jsonMatch \<Rightarrow>
          (case JSON_parse eng jsonMatch of
             Inl message \<Rightarrow> Inl message
           | Inr parsed \<Rightarrow> validate_outputs eng cfg (to_outputs parsed)))"

text \<open>Lines 46 to 116 on what the provider answered (its text, or its error).\<close>

definition attempt_result :: "engine \<Rightarrow> config \<Rightarrow> jsstring + jsstring \<Rightarrow> jsstring + jsvalue list" where
  "attempt_result eng cfg answer =
     (case answer of Inl message \<Rightarrow> Inl message | Inr response \<Rightarrow> attempt_body eng cfg response)"

text \<open>
  The loop of line 29 from attempt \<open>i\<close> on, with the current \<^verbatim>\<open>error_msg\<close>. It
  returns the log of the attempts made (the prompt sent and how the attempt
  ended, in order) and the result of \<^verbatim>\<open>strict_output\<close>: \<open>Inr\<close> the array returned
  at line 110, \<open>Inl\<close> the message of the error thrown at line 119.
\<close>

type_synonym attempt_log = "(jsstring \<times> (jsstring + jsvalue list)) list"

function attempts ::
  "engine \<Rightarrow> provider \<Rightarrow> config \<Rightarrow> nat \<Rightarrow> jsstring \<Rightarrow> attempt_log \<times> (jsstring + jsvalue list)" where
  "attempts eng generate cfg i error_msg =
     (if int i < num_tries cfg then
        (let p = prompt eng cfg error_msg;
             r = attempt_result eng cfg (generate i (model cfg) p)
         in case r of
              Inr outputs \<Rightarrow> ([(p, r)], Inr outputs)
            | Inl message \<Rightarrow>
                (case attempts eng generate cfg (Suc i) (feedback message) of
                   (log, result) \<Rightarrow> ((p, r) # log, result)))
      else ([], Inl exhausted_message))"
  by pat_completeness auto
termination
  by (relation "measure (\<lambda>(eng, generate, cfg, i, error_msg). nat (num_tries cfg - int i))") auto

definition strict_output ::
  "engine \<Rightarrow> provider \<Rightarrow> config \<Rightarrow> attempt_log \<times> (jsstring + jsvalue list)" where
  "strict_output eng generate cfg = attempts eng generate cfg 0 []"

section \<open>Examples\<close>

text \<open>
  An engine for the examples: \<^verbatim>\<open>JSON.parse\<close> and \<^verbatim>\<open>JSON.stringify\<close> are tables that
  hold what the engine returns for the texts and values that an example meets.
  No example has an item that is an array or no object.
\<close>

definition parse_table :: "(jsstring \<times> jsvalue) list \<Rightarrow> jsstring \<Rightarrow> jsstring + jsvalue" where
  "parse_table tab s =
     (case map_of tab s of Some v \<Rightarrow> Inr v | None \<Rightarrow> Inl (js ''Unexpected token''))"

definition stringify_table :: "(jsvalue \<times> jsstring) list \<Rightarrow> jsvalue \<Rightarrow> jsstring" where
  "stringify_table tab v = (case map_of tab v of Some s \<Rightarrow> s | None \<Rightarrow> js ''null'')"

definition example_engine ::
  "(jsstring \<times> jsvalue) list \<Rightarrow> (jsvalue \<times> jsstring) list \<Rightarrow> engine" where
  "example_engine parses strings =
     \<lparr>JSON_parse = parse_table parses,
      JSON_stringify = stringify_table strings,
      in_TypeError = (\<lambda>key item. js ''Cannot use the in operator''),
      values_TypeError = js ''Cannot convert undefined or null to object'',
      array_item = (\<lambda>fmt dc xs. Inr (JArray xs))\<rparr>"

text \<open>A call as the quiz application makes it, for one input.\<close>

definition quiz_format :: OutputFormat where
  "quiz_format =
     [(js ''question'', Description (js ''question'')),
      (js ''answer'', Description (js ''answer with max length of 15 words''))]"

definition quiz_config :: config where
  "quiz_config =
     \<lparr>system_prompt = js ''You are a helpful AI that generates a question and its answer.'',
      user_prompt = Single (js ''Generate a question about rivers.''),
      output_format = quiz_format,
      default_category = [],
      output_value_only = False,
      model = js ''models/gemini-1.5-flash'',
      num_tries = 3\<rparr>"

definition quiz_engine :: engine where
  \<open>quiz_engine =
     example_engine []
       [(format_to_json quiz_format,
         js ''{"question":"question","answer":"answer with max length of 15 words"}'')]\<close>

text \<open>A provider that answers every call with prose.\<close>

definition refusing :: provider where
  "refusing i m p = Inr (js ''I am sorry, I cannot help with that.'')"

text \<open>A provider whose first call fails for one reason and whose later calls fail for another.\<close>

definition flaky :: provider where
  "flaky i m p = Inl (if i = 0 then js ''quota exceeded'' else js ''deadline exceeded'')"

text \<open>Two inputs, answered by the provider with a single object that has one more key.\<close>

definition two_inputs :: config where
  "two_inputs = quiz_config\<lparr>user_prompt := Many [js ''rivers'', js ''lakes'']\<rparr>"

definition river_text :: jsstring where
  \<open>river_text = js ''{"question": "Which river is the longest?", "answer": "The Nile", "source": "atlas"}''\<close>

definition river_record :: properties where
  "river_record =
     [(js ''question'', JString (js ''Which river is the longest?'')),
      (js ''answer'', JString (js ''The Nile'')),
      (js ''source'', JString (js ''atlas''))]"

definition river_engine :: engine where
  \<open>river_engine =
     example_engine [(river_text, JObject river_record)]
       [(format_to_json quiz_format,
         js ''{"question":"question","answer":"answer with max length of 15 words"}'')]\<close>

definition one_object :: provider where
  "one_object i m p = Inr river_text"

text \<open>The example of values-only output: one key, \<^verbatim>\<open>output_value_only\<close> set.\<close>

definition paris_format :: OutputFormat where
  "paris_format = [(js ''answer'', Description (js ''a short answer''))]"

definition paris_config :: config where
  "paris_config =
     \<lparr>system_prompt = js ''Answer the question.'',
      user_prompt = Single (js ''What is the capital of France?''),
      output_format = paris_format,
      default_category = [],
      output_value_only = True,
      model = js ''models/gemini-1.5-flash'',
      num_tries = 3\<rparr>"

definition paris_record :: properties where
  "paris_record = [(js ''answer'', JString (js ''Paris''))]"

definition paris_engine :: engine where
  \<open>paris_engine =
     example_engine [(js ''{"answer": "Paris"}'', JObject paris_record)]
       [(format_to_json paris_format, js ''{"answer":"a short answer"}'')]\<close>

definition paris_provider :: provider where
  \<open>paris_provider i m p = Inr (js ''{"answer": "Paris"}'')\<close>

text \<open>A format with a closed set of values, a placeholder key and a default category.\<close>

definition graded_format :: OutputFormat where
  "graded_format =
     [(js ''question'', Description (js ''question'')),
      (js ''difficulty'', Options [js ''easy'', js ''hard'']),
      (js ''<topic>'', Description (js ''a fact about the topic''))]"

definition graded_config :: config where
  "graded_config = quiz_config\<lparr>output_format := graded_format, default_category := js ''easy''\<rparr>"

definition graded_item :: properties where
  "graded_item =
     [(js ''question'', JString (js ''How long is the Nile?'')),
      (js ''difficulty'', JArray [JString (js ''extreme''), JString (js ''hard'')])]"




text \<open>
  A provider whose first answer lacks the key \<^verbatim>\<open>answer\<close> and whose later answers
  are complete.
\<close>

definition partial_text :: jsstring where
  \<open>partial_text = js ''{"question": "Which river is the longest?"}''\<close>

definition partial_record :: properties where
  "partial_record = [(js ''question'', JString (js ''Which river is the longest?''))]"

definition forgetful_engine :: engine where
  \<open>forgetful_engine =
     example_engine [(partial_text, JObject partial_record), (river_text, JObject river_record)]
       [(format_to_json quiz_format,
         js ''{"question":"question","answer":"answer with max length of 15 words"}''),
        (JObject partial_record, js ''{"question":"Which river is the longest?"}'')]\<close>

definition forgetful :: provider where
  "forgetful i m p = Inr (if i = 0 then partial_text else river_text)"

text \<open>
  A format whose only key is a name that every object inherits, and an answer
  without that key. The number 1 is the double \<^verbatim>\<open>0x3FF0000000000000\<close>.
\<close>

definition constructor_format :: OutputFormat where
  "constructor_format = [(js ''constructor'', Description (js ''who built it''))]"

definition constructor_config :: config where
  "constructor_config = quiz_config\<lparr>output_format := constructor_format\<rparr>"

definition only_k :: properties where
  "only_k = [(js ''k'', JNumber 0x3FF0000000000000)]"

definition constructor_engine :: engine where
  \<open>constructor_engine =
     example_engine [(js ''{"k": 1}'', JObject only_k)]
       [(format_to_json constructor_format, js ''{"constructor":"who built it"}'')]\<close>

definition constructor_provider :: provider where
  \<open>constructor_provider i m p = Inr (js ''{"k": 1}'')\<close>

section \<open>The clean up\<close>

lemma remove_fences_other:
  "c \<noteq> backtick \<Longrightarrow> remove_fences (c # cs) = c # remove_fences cs"
  by (simp add: js_def)

lemma remove_fences_two:
  assumes "\<not> prefix [backtick, backtick] cs"
  shows "\<not> prefix [backtick, backtick] (remove_fences cs)"
proof (cases cs)
  case Nil
  then show ?thesis by simp
next
  case (Cons d ds)
  note cs = this
  show ?thesis
  proof (cases "d = backtick")
    case False
    then have "remove_fences (d # ds) = d # remove_fences ds" by (rule remove_fences_other)
    with False cs show ?thesis by simp
  next
    case True
    note d = this
    show ?thesis
    proof (cases ds)
      case Nil
      with cs d show ?thesis by (simp add: js_def)
    next
      case (Cons e es)
      with assms cs d have e: "e \<noteq> backtick" by auto
      then have "remove_fences (e # es) = e # remove_fences es" by (rule remove_fences_other)
      moreover from e have "remove_fences (backtick # e # es) = backtick # remove_fences (e # es)"
        by (simp add: js_def)
      ultimately show ?thesis using cs d Cons e by simp
    qed
  qed
qed

lemma remove_fences_no_fence: "\<not> sublist (js ''```'') (remove_fences s)"
proof (induction s rule: remove_fences.induct)
  case 1
  then show ?case by (simp add: js_def)
next
  case (2 c cs)
  show ?case
  proof (cases "prefix (js ''```json'') (c # cs)")
    case True
    with 2 show ?thesis by simp
  next
    case False
    note nj = this
    show ?thesis
    proof (cases "prefix (js ''```'') (c # cs)")
      case True
      with nj 2 show ?thesis by simp
    next
      case False
      with nj 2 have ih: "\<not> sublist (js ''```'') (remove_fences cs)" by simp
      have "\<not> prefix (js ''```'') (c # remove_fences cs)"
      proof (cases "c = backtick")
        case True
        with False have "\<not> prefix [backtick, backtick] cs" by (simp add: js_def)
        then have "\<not> prefix [backtick, backtick] (remove_fences cs)" by (rule remove_fences_two)
        then show ?thesis by (simp add: js_def)
      next
        case False
        then show ?thesis by (simp add: js_def)
      qed
      with ih have "\<not> sublist (js ''```'') (c # remove_fences cs)"
        by (simp add: sublist_Cons_right)
      with nj False show ?thesis by simp
    qed
  qed
qed

lemma remove_fences_id: "backtick \<notin> set s \<Longrightarrow> remove_fences s = s"
  by (induction s) (auto simp: js_def)

lemma single_to_double_no_single: "single_quote \<notin> set (single_to_double s)"
  by (auto simp: single_to_double_def)

lemma single_to_double_nth:
  "i < length s \<Longrightarrow>
   single_to_double s ! i = (if s ! i = single_quote then double_quote else s ! i)"
  by (simp add: single_to_double_def)

lemma not_space_comma: "\<not> is_space comma"
  by (simp add: is_space_def)

lemma not_space_closer: "c = rbrace \<or> c = rbracket \<Longrightarrow> \<not> is_space c"
  by (auto simp: is_space_def)

lemma closer_next_append: "zs \<noteq> [] \<Longrightarrow> closer_next (zs @ ws) = closer_next zs"
  by (cases zs) (simp_all add: closer_next_def)

lemma remove_trailing_commas_split:
  "remove_trailing_commas (x @ comma # y) =
     remove_trailing_commas x @ remove_trailing_commas (comma # y)"
proof (induction x rule: remove_trailing_commas.induct)
  case 1
  then show ?case by simp
next
  case (2 c cs)
  show ?case
  proof (cases "\<forall>z \<in> set cs. is_space z")
    case True
    then have "dropWhile is_space (cs @ comma # y) = comma # y"
      by (simp add: dropWhile_append2 not_space_comma)
    then have n1: "\<not> closer_next (dropWhile is_space (cs @ comma # y))"
      by (simp add: closer_next_def)
    from True have dn: "dropWhile is_space cs = []" by simp
    have n2: "\<not> closer_next (dropWhile is_space cs)"
      by (subst dn) (simp add: closer_next_def)
    from 2 n1 n2 show ?thesis by simp
  next
    case False
    then have d: "dropWhile is_space (cs @ comma # y) = dropWhile is_space cs @ comma # y"
      by (auto simp: dropWhile_append)
    from False have ne: "dropWhile is_space cs \<noteq> []" by (simp add: dropWhile_eq_Nil_conv)
    then have cn: "closer_next (dropWhile is_space (cs @ comma # y)) = closer_next (dropWhile is_space cs)"
      by (simp add: d closer_next_append)
    show ?thesis
    proof (cases "c = comma \<and> closer_next (dropWhile is_space cs)")
      case True
      with 2 cn d show ?thesis by simp
    next
      case False
      with 2 cn show ?thesis by auto
    qed
  qed
qed

lemma remove_trailing_commas_match:
  assumes "\<forall>w \<in> set ws. is_space w" and "c = rbrace \<or> c = rbracket"
  shows "remove_trailing_commas (comma # ws @ c # b) = c # remove_trailing_commas b"
proof -
  from assms have d: "dropWhile is_space (ws @ c # b) = c # b"
    by (simp add: dropWhile_append2 not_space_closer)
  from assms(2) have "closer_next (c # b)" by (simp add: closer_next_def)
  with d have "remove_trailing_commas (comma # ws @ c # b) = remove_trailing_commas (c # b)"
    by simp
  also from assms(2) have "\<dots> = c # remove_trailing_commas b" by auto
  finally show ?thesis .
qed

lemma remove_trailing_commas_law:
  assumes "\<forall>w \<in> set ws. is_space w" and "c = rbrace \<or> c = rbracket"
  shows "remove_trailing_commas (a @ comma # ws @ c # b) =
           remove_trailing_commas a @ c # remove_trailing_commas b"
  by (simp only: remove_trailing_commas_split remove_trailing_commas_match[OF assms])

lemma remove_trailing_commas_id: "comma \<notin> set s \<Longrightarrow> remove_trailing_commas s = s"
  by (induction s) auto


lemma through_last_split:
  assumes "c \<in> set cs"
  shows "\<exists>body post. cs = body @ c # post \<and> c \<notin> set post \<and> through_last c cs = body @ [c]"
proof -
  from split_list_last[OF assms] obtain body post where
    cs: "cs = body @ c # post" and post: "c \<notin> set post" by blast
  from post have "dropWhile (\<lambda>x. x \<noteq> c) (rev post @ c # rev body) = c # rev body"
    by (auto simp: dropWhile_append3)
  then have "through_last c cs = body @ [c]"
    by (simp add: through_last_def cs)
  with cs post show ?thesis by blast
qed

lemma json_match_None:
  "json_match s = None \<longleftrightarrow> (\<forall>t. suffix t s \<longrightarrow> \<not> starts_span t)"
proof (induction s)
  case Nil
  then show ?case by (simp add: starts_span_def)
next
  case (Cons c cs)
  have "(\<forall>t. suffix t (c # cs) \<longrightarrow> \<not> starts_span t) \<longleftrightarrow>
          \<not> starts_span (c # cs) \<and> (\<forall>t. suffix t cs \<longrightarrow> \<not> starts_span t)"
    by (auto simp: suffix_Cons)
  with Cons show ?case by (simp add: starts_span_def)
qed

lemma json_match_Some:
  "json_match s = Some m \<Longrightarrow>
   \<exists>pre body post. s = pre @ m @ post
     \<and> (\<forall>a b. pre = a @ b \<and> b \<noteq> [] \<longrightarrow> \<not> starts_span (b @ m @ post))
     \<and> ((m = lbrace # body @ [rbrace] \<and> rbrace \<notin> set post)
        \<or> (m = lbracket # body @ [rbracket] \<and> rbracket \<notin> set post))"
proof (induction s)
  case Nil
  then show ?case by simp
next
  case (Cons c cs)
  show ?case
  proof (cases "starts_span (c # cs)")
    case True
    then consider "c = lbrace" "rbrace \<in> set cs" | "c \<noteq> lbrace \<or> rbrace \<notin> set cs" "c = lbracket" "rbracket \<in> set cs"
      by (auto simp: starts_span_def)
    then show ?thesis
    proof cases
      case 1
      then obtain body post where
        b: "cs = body @ rbrace # post" "rbrace \<notin> set post" "through_last rbrace cs = body @ [rbrace]"
        using through_last_split by blast
      from 1 Cons.prems b have m: "m = lbrace # body @ [rbrace]" by simp
      with 1 b have "c # cs = [] @ m @ post" by simp
      with m b(2) show ?thesis by blast
    next
      case 2
      then obtain body post where
        b: "cs = body @ rbracket # post" "rbracket \<notin> set post"
           "through_last rbracket cs = body @ [rbracket]"
        using through_last_split by blast
      from 2 Cons.prems b have m: "m = lbracket # body @ [rbracket]" by auto
      with 2 b have "c # cs = [] @ m @ post" by simp
      with m b(2) show ?thesis by blast
    qed
  next
    case False
    with Cons.prems have "json_match cs = Some m" by (auto simp: starts_span_def split: if_splits)
    from Cons.IH[OF this] obtain pre body post where
      *: "cs = pre @ m @ post"
         "\<forall>a b. pre = a @ b \<and> b \<noteq> [] \<longrightarrow> \<not> starts_span (b @ m @ post)"
         "(m = lbrace # body @ [rbrace] \<and> rbrace \<notin> set post)
          \<or> (m = lbracket # body @ [rbracket] \<and> rbracket \<notin> set post)"
      by blast
    have 1: "c # cs = (c # pre) @ m @ post" using *(1) by simp
    have 2: "\<not> starts_span (b @ m @ post)" if "c # pre = a @ b" "b \<noteq> []" for a b
    proof (cases a)
      case Nil
      with that have "b = c # pre" by simp
      with *(1) False show ?thesis by simp
    next
      case (Cons a1 as)
      with that have "pre = as @ b" by simp
      with that(2) *(2) show ?thesis by blast
    qed
    from 1 2 *(3) show ?thesis by blast
  qed
qed

lemma json_fence_prefix: "prefix (js ''```json'') xs \<Longrightarrow> prefix (js ''```'') xs"
proof -
  have "js ''```json'' = js ''```'' @ js ''json''" by (simp add: js_def)
  then show "prefix (js ''```json'') xs \<Longrightarrow> prefix (js ''```'') xs"
    by (metis append_prefixD)
qed

lemma fence_prefix_sublist:
  "prefix (js ''```'') (c # cs @ js ''```'' @ b) \<Longrightarrow> sublist (js ''```'') ((c # cs) @ js ''``'')"
proof -
  assume p: "prefix (js ''```'') (c # cs @ js ''```'' @ b)"
  then have c: "c = backtick" by (simp add: js_def)
  show ?thesis
  proof (cases cs)
    case Nil
    with c show ?thesis by (simp add: js_def)
  next
    case (Cons d ds)
    with p have d: "d = backtick" by (simp add: js_def)
    show ?thesis
    proof (cases ds)
      case Nil
      with c d Cons have "(c # cs) @ js ''``'' = js ''```'' @ [backtick]" by (simp add: js_def)
      then show ?thesis by (metis sublist_appendI append_Nil)
    next
      case (Cons e es)
      with p \<open>cs = d # ds\<close> have e: "e = backtick" by (simp add: js_def)
      with c d Cons \<open>cs = d # ds\<close> have "(c # cs) @ js ''``'' = js ''```'' @ (es @ js ''``'')"
        by (simp add: js_def)
      then show ?thesis by (metis sublist_appendI append_Nil)
    qed
  qed
qed

lemma remove_fences_first_marker:
  "\<not> sublist (js ''```'') (a @ js ''``'') \<Longrightarrow>
   remove_fences (a @ js ''```'' @ b) =
     a @ remove_fences (if prefix (js ''json'') b then drop 4 b else b)"
proof (induction a)
  case Nil
  show ?case
  proof (cases "prefix (js ''json'') b")
    case True
    then obtain r where b: "b = js ''json'' @ r" by (auto simp: prefix_def)
    then show ?thesis by (simp add: js_def)
  next
    case False
    then have "\<not> prefix (js ''```json'') (js ''```'' @ b)" by (simp add: js_def)
    with False show ?thesis by (simp add: js_def)
  qed
next
  case (Cons c cs)
  have n: "\<not> prefix (js ''```'') (c # cs @ js ''```'' @ b)"
    using Cons.prems fence_prefix_sublist by blast
  then have nj: "\<not> prefix (js ''```json'') (c # cs @ js ''```'' @ b)"
    by (blast dest: json_fence_prefix)
  from Cons.prems have "\<not> sublist (js ''```'') (cs @ js ''``'')"
    by (auto simp: sublist_Cons_right)
  from Cons.IH[OF this] n nj show ?case by simp
qed

lemma remove_fences_no_marker:
  "\<not> sublist (js ''```'') s \<Longrightarrow> remove_fences s = s"
proof (induction s)
  case Nil
  then show ?case by simp
next
  case (Cons c cs)
  from Cons.prems have n: "\<not> prefix (js ''```'') (c # cs)" and r: "\<not> sublist (js ''```'') cs"
    by (auto simp: sublist_Cons_right)
  from n have nj: "\<not> prefix (js ''```json'') (c # cs)" by (blast dest: json_fence_prefix)
  from Cons.IH[OF r] n nj show ?case by simp
qed

lemma remove_trailing_commas_no_match:
  "\<not> closer_next (dropWhile is_space y) \<Longrightarrow>
   remove_trailing_commas (comma # y) = comma # remove_trailing_commas y"
  by simp

lemma length_single_to_double: "length (single_to_double s) = length s"
  by (simp add: single_to_double_def)

lemma clean_up_wrapped:
  assumes "\<not> sublist (js ''```'') (body @ js ''``'')"
  shows "clean_up (js ''```json'' @ body @ js ''```'')
           = remove_trailing_commas (single_to_double (trim body))"
proof -
  have "js ''```json'' @ body @ js ''```'' = [] @ js ''```'' @ (js ''json'' @ body @ js ''```'')"
    by (simp add: js_def)
  moreover have "\<not> sublist (js ''```'') ([] @ js ''``'')" by (simp add: js_def sublist_Cons_right)
  ultimately have "remove_fences (js ''```json'' @ body @ js ''```'')
      = remove_fences (body @ js ''```'' @ [])"
    using remove_fences_first_marker [of "[]" "js ''json'' @ body @ js ''```''"]
    by (simp add: js_def)
  also have "\<dots> = body @ remove_fences []"
    using remove_fences_first_marker [OF assms, of "[]"] by (simp add: js_def)
  finally show ?thesis by (simp add: clean_up_def)
qed

section \<open>The key loop\<close>

lemma map_of_Some_key: "map_of item key = Some v \<Longrightarrow> key \<in> fst ` set item"
  by (auto dest: map_of_SomeD intro: rev_image_eqI)

lemma check_key_isl:
  "isl (check_key eng cfg (key, fv) item) \<longleftrightarrow> \<not> key_in key item \<and> less_sign \<notin> set key"
  by (simp add: check_key_def Let_def split: format_value.splits option.splits)

lemma check_key_missing:
  "\<not> key_in key item \<Longrightarrow>
   check_key eng cfg (key, fv) item =
     (if less_sign \<in> set key then Inr item else Inl (missing_key_message eng key item))"
  by (simp add: check_key_def)

lemma check_key_other:
  "check_key eng cfg (key, fv) item = Inr item' \<Longrightarrow> k \<noteq> key \<Longrightarrow> map_of item' k = map_of item k"
  by (auto simp: check_key_def Let_def update_conv' map_add_def
           split: if_splits format_value.splits option.splits)

lemma check_key_description:
  "check_key eng cfg (key, Description d) item = Inr item' \<Longrightarrow> item' = item"
  by (auto simp: check_key_def split: if_splits)


lemma check_key_keys:
  "check_key eng cfg (key, fv) item = Inr item' \<Longrightarrow> prefix (map fst item) (map fst item')"
  by (auto simp: check_key_def Let_def update_keys dest: map_of_Some_key
           split: if_splits format_value.splits option.splits)

lemma check_key_own:
  assumes "check_key eng cfg (key, fv) item = Inr item'"
  shows "fst ` set item' = fst ` set item
   \<or> (key_in key item \<and> fst ` set item' = insert key (fst ` set item))"
proof (cases "key_in key item")
  case False
  with assms have "item' = item" by (simp add: check_key_def split: if_splits)
  then show ?thesis by simp
next
  case True
  show ?thesis
  proof (cases fv)
    case (Description d)
    with assms have "item' = item" by (simp add: check_key_description)
    then show ?thesis by simp
  next
    case (Options options)
    show ?thesis
    proof (cases "map_of item key")
      case None
      with assms True Options
      have "item' = item @ [(key, JString (default_category cfg))] \<or> item' = item"
        by (auto simp: check_key_def)
      with True show ?thesis by auto
    next
      case (Some v)
      then have k: "key \<in> fst ` set item" by (rule map_of_Some_key)
      have up: "fst ` set (AList.update key w al) = fst ` set item"
        if "fst ` set al = fst ` set item" for w al
        using that k by (simp add: dom_update insert_absorb)
      from assms have "item' = projr (check_key eng cfg (key, fv) item)" by simp
      then have "fst ` set item' = fst ` set item"
        by (simp add: check_key_def Let_def True Options Some up)
      then show ?thesis by simp
    qed
  qed
qed

lemma check_key_key_in:
  assumes "check_key eng cfg (key, fv) item = Inr item'"
  shows "key_in k item' = key_in k item"
proof -
  from check_key_own[OF assms] show ?thesis
  proof
    assume "fst ` set item' = fst ` set item"
    then show ?thesis by (simp add: key_in_def)
  next
    assume a: "key_in key item \<and> fst ` set item' = insert key (fst ` set item)"
    show ?thesis
    proof (cases "k = key")
      case True
      with a show ?thesis by (simp add: key_in_def)
    next
      case False
      with a show ?thesis by (simp add: key_in_def)
    qed
  qed
qed

lemma check_keys_isl:
  "isl (check_keys eng cfg fmt item) \<longleftrightarrow>
     (\<exists>(key, fv) \<in> set fmt. \<not> key_in key item \<and> less_sign \<notin> set key)"
proof (induction fmt arbitrary: item)
  case Nil
  then show ?case by simp
next
  case (Cons kf fmt)
  obtain key fv where kf: "kf = (key, fv)" by (cases kf)
  show ?case
  proof (cases "check_key eng cfg (key, fv) item")
    case (Inl message)
    then have "\<not> key_in key item \<and> less_sign \<notin> set key"
      using check_key_isl[of eng cfg key fv item] by simp
    with Inl kf show ?thesis by auto
  next
    case (Inr item')
    then have "\<not> (\<not> key_in key item \<and> less_sign \<notin> set key)"
      using check_key_isl[of eng cfg key fv item] by simp
    moreover have "key_in k item' = key_in k item" for k
      using Inr by (rule check_key_key_in)
    ultimately show ?thesis using Inr kf Cons.IH[of item'] by auto
  qed
qed


lemma check_keys_frame:
  "check_keys eng cfg fmt item = Inr item' \<Longrightarrow> \<forall>options. (k, Options options) \<notin> set fmt \<Longrightarrow>
   map_of item' k = map_of item k"
proof (induction fmt arbitrary: item)
  case Nil
  then show ?case by simp
next
  case (Cons kf fmt)
  obtain key fv where kf: "kf = (key, fv)" by (cases kf)
  from Cons.prems kf obtain item1 where
    1: "check_key eng cfg (key, fv) item = Inr item1" and 2: "check_keys eng cfg fmt item1 = Inr item'"
    by (auto split: sum.splits)
  have "map_of item1 k = map_of item k"
  proof (cases "k = key")
    case True
    with Cons.prems(2) kf obtain d where "fv = Description d" by (cases fv) auto
    with 1 show ?thesis by (auto dest: check_key_description)
  next
    case False
    with 1 show ?thesis by (rule check_key_other)
  qed
  moreover from Cons.prems(2) have "\<forall>options. (k, Options options) \<notin> set fmt" by simp
  ultimately show ?case using Cons.IH[OF 2] by simp
qed

lemma check_keys_keys:
  "check_keys eng cfg fmt item = Inr item' \<Longrightarrow> prefix (map fst item) (map fst item')"
proof (induction fmt arbitrary: item)
  case Nil
  then show ?case by simp
next
  case (Cons kf fmt)
  obtain key fv where kf: "kf = (key, fv)" by (cases kf)
  from Cons.prems kf obtain item1 where
    1: "check_key eng cfg (key, fv) item = Inr item1" and 2: "check_keys eng cfg fmt item1 = Inr item'"
    by (auto split: sum.splits)
  from check_key_keys[OF 1] Cons.IH[OF 2] show ?case by (rule prefix_order.trans)
qed


lemma check_keys_cfg:
  "check_keys eng (cfg\<lparr>output_format := f\<rparr>) fmt item = check_keys eng cfg fmt item"
proof (induction fmt arbitrary: item)
  case Nil
  then show ?case by simp
next
  case (Cons kf fmt)
  have dc: "default_category (cfg\<lparr>output_format := f\<rparr>) = default_category cfg"
    by simp
  have "check_key eng (cfg\<lparr>output_format := f\<rparr>) kf item = check_key eng cfg kf item"
    unfolding check_key_def dc by (rule refl)
  with Cons show ?case by (simp split: sum.splits)
qed

lemma prototype_no_less: "key \<in> set object_prototype_names \<Longrightarrow> less_sign \<notin> set key"
  by (auto simp: object_prototype_names_def js_def)

section \<open>The retry loop\<close>

declare attempts.simps [simp del]

lemma attempts_done:
  "\<not> int i < num_tries cfg \<Longrightarrow> attempts eng generate cfg i error_msg = ([], Inl exhausted_message)"
  by (subst attempts.simps) simp

lemma attempts_failed:
  assumes "int i < num_tries cfg"
    and "attempt_result eng cfg (generate i (model cfg) (prompt eng cfg error_msg)) = Inl message"
  shows "attempts eng generate cfg i error_msg =
           ((prompt eng cfg error_msg, Inl message) # fst (attempts eng generate cfg (Suc i) (feedback message)),
            snd (attempts eng generate cfg (Suc i) (feedback message)))"
  using assms by (subst attempts.simps) (simp add: Let_def split: prod.splits)

lemma attempts_succeeded:
  assumes "int i < num_tries cfg"
    and "attempt_result eng cfg (generate i (model cfg) (prompt eng cfg error_msg)) = Inr outputs"
  shows "attempts eng generate cfg i error_msg = ([(prompt eng cfg error_msg, Inr outputs)], Inr outputs)"
  using assms by (subst attempts.simps) (simp add: Let_def)

lemma attempts_all_fail:
  assumes "\<forall>j p. int j < num_tries cfg \<longrightarrow> isl (attempt_result eng cfg (generate j (model cfg) p))"
  shows "length (fst (attempts eng generate cfg i error_msg)) = nat (num_tries cfg - int i)
         \<and> snd (attempts eng generate cfg i error_msg) = Inl exhausted_message
         \<and> (\<forall>e \<in> set (fst (attempts eng generate cfg i error_msg)). isl (snd e))"
  using assms
proof (induction eng generate cfg i error_msg rule: attempts.induct)
  case (1 eng generate cfg i error_msg)
  show ?case
  proof (cases "int i < num_tries cfg")
    case False
    then show ?thesis by (simp add: attempts_done)
  next
    case True
    let ?p = "prompt eng cfg error_msg"
    from True "1.prems" have "isl (attempt_result eng cfg (generate i (model cfg) ?p))" by blast
    then obtain message where m: "attempt_result eng cfg (generate i (model cfg) ?p) = Inl message"
      by (auto simp: isl_def)
    have ih: "length (fst (attempts eng generate cfg (Suc i) (feedback message))) = nat (num_tries cfg - int (Suc i))
         \<and> snd (attempts eng generate cfg (Suc i) (feedback message)) = Inl exhausted_message
         \<and> (\<forall>e \<in> set (fst (attempts eng generate cfg (Suc i) (feedback message))). isl (snd e))"
      using "1.IH"[OF True refl refl m] "1.prems" by blast
    show ?thesis
      using True ih by (simp add: attempts_failed[where generate = generate, OF True m])
  qed
qed


lemma attempts_nonempty:
  "int i < num_tries cfg \<Longrightarrow> fst (attempts eng generate cfg i error_msg) \<noteq> []"
  by (subst attempts.simps) (simp add: Let_def split: sum.splits prod.splits)

lemma attempts_log:
  "(fst (attempts eng generate cfg i error_msg) \<noteq> [] \<longrightarrow>
      fst (fst (attempts eng generate cfg i error_msg) ! 0) = prompt eng cfg error_msg)
   \<and> (\<forall>k. Suc k < length (fst (attempts eng generate cfg i error_msg)) \<longrightarrow>
          (\<exists>message. snd (fst (attempts eng generate cfg i error_msg) ! k) = Inl message
             \<and> fst (fst (attempts eng generate cfg i error_msg) ! Suc k) = prompt eng cfg (feedback message)))
   \<and> (\<forall>k < length (fst (attempts eng generate cfg i error_msg)).
          snd (fst (attempts eng generate cfg i error_msg) ! k) =
            attempt_result eng cfg (generate (i + k) (model cfg) (fst (fst (attempts eng generate cfg i error_msg) ! k))))"
proof (induction eng generate cfg i error_msg rule: attempts.induct)
  case (1 eng generate cfg i error_msg)
  let ?p = "prompt eng cfg error_msg"
  let ?r = "attempt_result eng cfg (generate i (model cfg) ?p)"
  show ?case
  proof (cases "int i < num_tries cfg")
    case False
    then show ?thesis by (simp add: attempts_done)
  next
    case True
    show ?thesis
    proof (cases ?r)
      case (Inr outputs)
      then show ?thesis
        by (simp add: attempts_succeeded[where generate = generate, OF True Inr])
    next
      case (Inl message)
      let ?rest = "fst (attempts eng generate cfg (Suc i) (feedback message))"
      note ih = "1.IH"[OF True refl refl Inl]
      have eq: "fst (attempts eng generate cfg i error_msg) = (?p, Inl message) # ?rest"
        by (simp add: attempts_failed[where generate = generate, OF True Inl])
      have a: "fst (((?p, Inl message) # ?rest) ! 0) = ?p" by simp
      have b: "\<exists>m. snd (((?p, Inl message) # ?rest) ! k) = Inl m
                 \<and> fst (((?p, Inl message) # ?rest) ! Suc k) = prompt eng cfg (feedback m)"
        if "Suc k < length ((?p, Inl message) # ?rest)" for k
      proof (cases k)
        case 0
        with that have "?rest \<noteq> []" by auto
        with ih have "fst (?rest ! 0) = prompt eng cfg (feedback message)" by blast
        with 0 show ?thesis by simp
      next
        case (Suc k')
        with that have "Suc k' < length ?rest" by simp
        with ih obtain m where "snd (?rest ! k') = Inl m"
          "fst (?rest ! Suc k') = prompt eng cfg (feedback m)" by blast
        with Suc show ?thesis by simp
      qed
      have c: "snd (((?p, Inl message) # ?rest) ! k) =
                 attempt_result eng cfg (generate (i + k) (model cfg) (fst (((?p, Inl message) # ?rest) ! k)))"
        if "k < length ((?p, Inl message) # ?rest)" for k
      proof (cases k)
        case 0
        then show ?thesis using Inl by simp
      next
        case (Suc k')
        with that have "k' < length ?rest" by simp
        with ih have "snd (?rest ! k') =
            attempt_result eng cfg (generate (Suc i + k') (model cfg) (fst (?rest ! k')))" by blast
        with Suc show ?thesis by simp
      qed
      show ?thesis unfolding eq using a b c by blast
    qed
  qed
qed

lemma attempts_retried:
  "k < length (fst (attempts eng generate cfg i error_msg)) \<Longrightarrow>
   isl (snd (fst (attempts eng generate cfg i error_msg) ! k)) \<Longrightarrow>
   int (i + Suc k) < num_tries cfg \<Longrightarrow>
   Suc k < length (fst (attempts eng generate cfg i error_msg))"
proof (induction eng generate cfg i error_msg arbitrary: k rule: attempts.induct)
  case (1 eng generate cfg i error_msg)
  let ?p = "prompt eng cfg error_msg"
  let ?r = "attempt_result eng cfg (generate i (model cfg) ?p)"
  from "1.prems"(3) have True: "int i < num_tries cfg" by simp
  show ?case
  proof (cases ?r)
    case (Inr outputs)
    with "1.prems" show ?thesis
      by (simp add: attempts_succeeded[where generate = generate, OF True Inr])
  next
    case (Inl message)
    let ?rest = "fst (attempts eng generate cfg (Suc i) (feedback message))"
    have eq: "fst (attempts eng generate cfg i error_msg) = (?p, Inl message) # ?rest"
      by (simp add: attempts_failed[where generate = generate, OF True Inl])
    show ?thesis
    proof (cases k)
      case 0
      with "1.prems"(3) have "int (Suc i) < num_tries cfg" by simp
      then have "?rest \<noteq> []" by (rule attempts_nonempty)
      with 0 eq show ?thesis by simp
    next
      case (Suc k')
      with "1.prems" eq have "k' < length ?rest" "isl (snd (?rest ! k'))"
        "int (Suc i + Suc k') < num_tries cfg" by simp_all
      then have "Suc k' < length ?rest"
        by (rule "1.IH"[OF True refl refl Inl])
      with Suc eq show ?thesis by simp
    qed
  qed
qed

lemma attempts_success:
  "snd (attempts eng generate cfg i error_msg) = Inr outputs \<Longrightarrow>
   \<exists>j p. int j < num_tries cfg \<and> attempt_result eng cfg (generate j (model cfg) p) = Inr outputs"
proof (induction eng generate cfg i error_msg rule: attempts.induct)
  case (1 eng generate cfg i error_msg)
  let ?p = "prompt eng cfg error_msg"
  let ?r = "attempt_result eng cfg (generate i (model cfg) ?p)"
  show ?case
  proof (cases "int i < num_tries cfg")
    case False
    with "1.prems" show ?thesis by (simp add: attempts_done)
  next
    case True
    show ?thesis
    proof (cases ?r)
      case (Inr outs)
      with "1.prems" have "outs = outputs"
        by (simp add: attempts_succeeded[where generate = generate, OF True Inr])
      with Inr True show ?thesis by blast
    next
      case (Inl message)
      with "1.prems" have "snd (attempts eng generate cfg (Suc i) (feedback message)) = Inr outputs"
        by (simp add: attempts_failed[where generate = generate, OF True Inl])
      then show ?thesis by (rule "1.IH"[OF True refl refl Inl])
    qed
  qed
qed


lemma attempts_error:
  "snd (attempts eng generate cfg i error_msg) = Inl message \<Longrightarrow> message = exhausted_message"
proof (induction eng generate cfg i error_msg rule: attempts.induct)
  case (1 eng generate cfg i error_msg)
  let ?r = "attempt_result eng cfg (generate i (model cfg) (prompt eng cfg error_msg))"
  show ?case
  proof (cases "int i < num_tries cfg")
    case False
    with "1.prems" show ?thesis by (simp add: attempts_done)
  next
    case True
    show ?thesis
    proof (cases ?r)
      case (Inr outputs)
      with "1.prems" show ?thesis
        by (simp add: attempts_succeeded[where generate = generate, OF True Inr])
    next
      case (Inl m)
      with "1.prems" have "snd (attempts eng generate cfg (Suc i) (feedback m)) = Inl message"
        by (simp add: attempts_failed[where generate = generate, OF True Inl])
      then show ?thesis by (rule "1.IH"[OF True refl refl Inl])
    qed
  qed
qed

lemma attempts_result_last:
  "snd (attempts eng generate cfg i error_msg) = Inr outputs \<Longrightarrow>
   fst (attempts eng generate cfg i error_msg) \<noteq> []
   \<and> snd (last (fst (attempts eng generate cfg i error_msg))) = Inr outputs"
proof (induction eng generate cfg i error_msg rule: attempts.induct)
  case (1 eng generate cfg i error_msg)
  let ?r = "attempt_result eng cfg (generate i (model cfg) (prompt eng cfg error_msg))"
  show ?case
  proof (cases "int i < num_tries cfg")
    case False
    with "1.prems" show ?thesis by (simp add: attempts_done)
  next
    case True
    show ?thesis
    proof (cases ?r)
      case (Inr outs)
      with "1.prems" show ?thesis
        by (simp add: attempts_succeeded[where generate = generate, OF True Inr])
    next
      case (Inl m)
      with "1.prems" have "snd (attempts eng generate cfg (Suc i) (feedback m)) = Inr outputs"
        by (simp add: attempts_failed[where generate = generate, OF True Inl])
      from "1.IH"[OF True refl refl Inl this] show ?thesis
        by (simp add: attempts_failed[where generate = generate, OF True Inl])
    qed
  qed
qed

lemma attempts_all_failed:
  "list_all (\<lambda>e. isl (snd e)) (fst (attempts eng generate cfg i error_msg)) \<Longrightarrow>
   length (fst (attempts eng generate cfg i error_msg)) = nat (num_tries cfg - int i)
   \<and> snd (attempts eng generate cfg i error_msg) = Inl exhausted_message"
proof (induction eng generate cfg i error_msg rule: attempts.induct)
  case (1 eng generate cfg i error_msg)
  let ?r = "attempt_result eng cfg (generate i (model cfg) (prompt eng cfg error_msg))"
  show ?case
  proof (cases "int i < num_tries cfg")
    case False
    then show ?thesis by (simp add: attempts_done)
  next
    case True
    show ?thesis
    proof (cases ?r)
      case (Inr outs)
      with "1.prems" show ?thesis
        by (simp add: attempts_succeeded[where generate = generate, OF True Inr])
    next
      case (Inl m)
      with "1.prems" have "list_all (\<lambda>e. isl (snd e)) (fst (attempts eng generate cfg (Suc i) (feedback m)))"
        by (simp add: attempts_failed[where generate = generate, OF True Inl])
      from "1.IH"[OF True refl refl Inl this] True show ?thesis
        by (simp add: attempts_failed[where generate = generate, OF True Inl])
    qed
  qed
qed

lemma attempt_made:
  "int k < num_tries cfg \<Longrightarrow>
   \<forall>j<k. j < length (fst (strict_output eng generate cfg))
         \<and> isl (snd (fst (strict_output eng generate cfg) ! j)) \<Longrightarrow>
   k < length (fst (strict_output eng generate cfg))"
proof (induction k)
  case 0
  then have "fst (attempts eng generate cfg 0 []) \<noteq> []" by (intro attempts_nonempty) simp
  then show ?case by (simp add: strict_output_def)
next
  case (Suc k)
  then have "k < length (fst (strict_output eng generate cfg))"
    "isl (snd (fst (strict_output eng generate cfg) ! k))" by simp_all
  with Suc.prems(1) show ?case
    unfolding strict_output_def by (intro attempts_retried) simp_all
qed

section \<open>Items and attempts\<close>

lemma validate_item_object:
  "validate_item eng cfg (JObject item) =
     (case check_keys eng cfg (output_format cfg) item of
        Inl message \<Rightarrow> Inl message | Inr item' \<Rightarrow> Inr (JObject item'))"
  by (simp add: validate_item_def)

lemma loop_body_element:
  "loop_body eng cfg item = Inr (element, it) \<Longrightarrow> validate_item eng cfg item = Inr element"
  by (auto simp: loop_body_def split: sum.splits if_splits)

lemma loop_body_isl:
  "isl (validate_item eng cfg item) \<Longrightarrow> isl (loop_body eng cfg item)"
  by (auto simp: loop_body_def isl_def)

lemma validate_outputs_nth:
  "validate_outputs eng cfg items = Inr outputs \<Longrightarrow>
   length outputs = length items
   \<and> (\<forall>j < length items. validate_item eng cfg (items ! j) = Inr (outputs ! j))"
proof (induction items arbitrary: outputs)
  case Nil
  then show ?case by simp
next
  case (Cons item items)
  from Cons.prems obtain element it elements where
    1: "loop_body eng cfg item = Inr (element, it)"
    and 2: "validate_outputs eng cfg items = Inr elements"
    and 3: "outputs = element # elements"
    by (auto split: sum.splits prod.splits)
  from Cons.IH[OF 2] loop_body_element[OF 1] 3 show ?case
    by (auto simp: nth_Cons split: nat.splits)
qed

lemma validate_outputs_isl:
  "item \<in> set items \<Longrightarrow> isl (loop_body eng cfg item) \<Longrightarrow> isl (validate_outputs eng cfg items)"
  by (induction items) (auto simp: isl_def split: sum.splits prod.splits)

lemma attempt_body_success:
  "attempt_body eng cfg response = Inr outputs \<Longrightarrow>
   \<exists>jsonMatch parsed. json_match (clean_up (trim response)) = Some jsonMatch
      \<and> JSON_parse eng jsonMatch = Inr parsed
      \<and> validate_outputs eng cfg (to_outputs parsed) = Inr outputs"
  by (auto simp: attempt_body_def Let_def split: option.splits sum.splits)

lemma attempt_result_success:
  "attempt_result eng cfg answer = Inr outputs \<Longrightarrow>
   \<exists>response. answer = Inr response \<and> attempt_body eng cfg response = Inr outputs"
  by (auto simp: attempt_result_def split: sum.splits)

lemma strict_output_success:
  assumes "snd (strict_output eng generate cfg) = Inr outputs"
  shows "\<exists>i p response jsonMatch parsed.
           int i < num_tries cfg
           \<and> generate i (model cfg) p = Inr response
           \<and> json_match (clean_up (trim response)) = Some jsonMatch
           \<and> JSON_parse eng jsonMatch = Inr parsed
           \<and> validate_outputs eng cfg (to_outputs parsed) = Inr outputs"
proof -
  from assms obtain i p where i: "int i < num_tries cfg"
    and r: "attempt_result eng cfg (generate i (model cfg) p) = Inr outputs"
    unfolding strict_output_def by (blast dest: attempts_success)
  from attempt_result_success[OF r] obtain response where
    g: "generate i (model cfg) p = Inr response" and b: "attempt_body eng cfg response = Inr outputs"
    by blast
  from attempt_body_success[OF b] i g show ?thesis by blast
qed

lemma validate_item_isl:
  "isl (validate_item eng cfg (JObject item)) \<longleftrightarrow>
     (\<exists>(key, fv) \<in> set (output_format cfg). \<not> key_in key item \<and> less_sign \<notin> set key)"
proof -
  have "isl (validate_item eng cfg (JObject item)) =
          isl (check_keys eng cfg (output_format cfg) item)"
    by (simp add: validate_item_object split: sum.splits)
  then show ?thesis by (simp only: check_keys_isl)
qed

lemma key_in_filter:
  "key \<in> K \<Longrightarrow> key_in key (filter (\<lambda>(k, v). k \<in> K) item) = key_in key item"
  by (auto simp: key_in_def intro: rev_image_eqI)

lemma extra_keys_ignored:
  "isl (validate_item eng cfg (JObject (filter (\<lambda>(k, v). k \<in> fst ` set (output_format cfg)) item)))
     = isl (validate_item eng cfg (JObject item))"
proof -
  have "key_in key (filter (\<lambda>(k, v). k \<in> fst ` set (output_format cfg)) item) = key_in key item"
    if "(key, fv) \<in> set (output_format cfg)" for key fv
    using that by (intro key_in_filter) (auto intro: rev_image_eqI)
  then show ?thesis unfolding validate_item_isl by blast
qed

text \<open>Runs of the examples.\<close>

lemma paris_run:
  "strict_output paris_engine paris_provider paris_config =
     ([(prompt paris_engine paris_config [], Inr [JObject paris_record])], Inr [JObject paris_record])"
proof -
  have "int 0 < num_tries paris_config" by (simp add: paris_config_def)
  moreover have "attempt_result paris_engine paris_config
          (paris_provider 0 (model paris_config) (prompt paris_engine paris_config []))
        = Inr [JObject paris_record]"
    by code_simp
  ultimately show ?thesis
    unfolding strict_output_def by (rule attempts_succeeded[where generate = paris_provider])
qed

lemma river_run:
  "strict_output river_engine one_object two_inputs =
     ([(prompt river_engine two_inputs [], Inr [JObject river_record])], Inr [JObject river_record])"
proof -
  have "int 0 < num_tries two_inputs" by (simp add: two_inputs_def quiz_config_def)
  moreover have "attempt_result river_engine two_inputs
          (one_object 0 (model two_inputs) (prompt river_engine two_inputs []))
        = Inr [JObject river_record]"
    by code_simp
  ultimately show ?thesis
    unfolding strict_output_def by (rule attempts_succeeded[where generate = one_object])
qed

lemma flaky_log:
  "fst (strict_output quiz_engine flaky quiz_config) =
     [(prompt quiz_engine quiz_config [], Inl (js ''quota exceeded'')),
      (prompt quiz_engine quiz_config (feedback (js ''quota exceeded'')), Inl (js ''deadline exceeded'')),
      (prompt quiz_engine quiz_config (feedback (js ''deadline exceeded'')), Inl (js ''deadline exceeded''))]"
  by (simp add: strict_output_def attempts.simps[of _ flaky] flaky_def attempt_result_def
        quiz_config_def Let_def)

lemma refusing_log:
  "fst (strict_output quiz_engine refusing quiz_config) =
     [(prompt quiz_engine quiz_config [], Inl no_json_message),
      (prompt quiz_engine quiz_config (feedback no_json_message), Inl no_json_message),
      (prompt quiz_engine quiz_config (feedback no_json_message), Inl no_json_message)]"
proof -
  have "attempt_body quiz_engine quiz_config (js ''I am sorry, I cannot help with that.'')
          = Inl no_json_message"
    by code_simp
  then show ?thesis
    by (simp add: strict_output_def attempts.simps[of _ refusing] refusing_def attempt_result_def
        quiz_config_def Let_def)
qed

lemma forgetful_run:
  "strict_output forgetful_engine forgetful quiz_config =
     ([(prompt forgetful_engine quiz_config [],
        Inl (missing_key_message forgetful_engine (js ''answer'') partial_record)),
       (prompt forgetful_engine quiz_config
          (feedback (missing_key_message forgetful_engine (js ''answer'') partial_record)),
        Inr [JObject river_record])],
      Inr [JObject river_record])"
proof -
  let ?m = "missing_key_message forgetful_engine (js ''answer'') partial_record"
  have 0: "int 0 < num_tries quiz_config" and 1: "int (Suc 0) < num_tries quiz_config"
    by (simp_all add: quiz_config_def)
  have a: "attempt_result forgetful_engine quiz_config
             (forgetful 0 (model quiz_config) (prompt forgetful_engine quiz_config [])) = Inl ?m"
    by code_simp
  have b: "attempt_result forgetful_engine quiz_config
             (forgetful (Suc 0) (model quiz_config) (prompt forgetful_engine quiz_config (feedback ?m)))
           = Inr [JObject river_record]"
    by code_simp
  show ?thesis
    unfolding strict_output_def
    by (simp add: attempts_failed[where generate = forgetful, OF 0 a]
        attempts_succeeded[where generate = forgetful, OF 1 b])
qed

lemma constructor_run:
  "snd (strict_output constructor_engine constructor_provider constructor_config)
     = Inr [JObject only_k]"
proof -
  have "int 0 < num_tries constructor_config"
    by (simp add: constructor_config_def quiz_config_def)
  moreover have "attempt_result constructor_engine constructor_config
          (constructor_provider 0 (model constructor_config)
             (prompt constructor_engine constructor_config []))
        = Inr [JObject only_k]"
    by code_simp
  ultimately show ?thesis
    unfolding strict_output_def
    by (simp add: attempts_succeeded[where generate = constructor_provider])
qed

section \<open>Properties of \<^verbatim>\<open>strict_output\<close>\<close>

text \<open>
  C1. The log of \<^verbatim>\<open>strict_output\<close> holds one entry for each attempt: the prompt
  sent, and what the attempt made of the provider's answer to that prompt on
  that call. The first prompt has no feedback, each later one has the feedback
  of the failure before it. When every attempt that is made fails, exactly
  \<^verbatim>\<open>num_tries\<close> attempts are made and the error of line 119 is thrown. That is
  so in particular when whatever the provider answers (an error, or a text
  without JSON, that does not parse, or that lacks a required key) makes the
  attempt fail. An error of a single attempt never escapes: the only error that
  \<^verbatim>\<open>strict_output\<close> throws is the one of line 119. The outputs it returns are
  never partial: they are the complete outputs of its last attempt.
\<close>

theorem retry_bound:
  "(list_all (\<lambda>e. isl (snd e)) (fst (strict_output eng generate cfg)) \<longrightarrow>
      length (fst (strict_output eng generate cfg)) = nat (num_tries cfg)
      \<and> snd (strict_output eng generate cfg) = Inl exhausted_message)
   \<and> ((\<forall>i p. int i < num_tries cfg \<longrightarrow>
           isl (attempt_result eng cfg (generate i (model cfg) p))) \<longrightarrow>
        list_all (\<lambda>e. isl (snd e)) (fst (strict_output eng generate cfg)))
   \<and> (snd (strict_output eng generate cfg) = Inl message \<longrightarrow> message = exhausted_message)
   \<and> (snd (strict_output eng generate cfg) = Inr outputs \<longrightarrow>
        fst (strict_output eng generate cfg) \<noteq> []
        \<and> snd (last (fst (strict_output eng generate cfg))) = Inr outputs)
   \<and> (k < length (fst (strict_output eng generate cfg)) \<longrightarrow>
        snd (fst (strict_output eng generate cfg) ! k)
          = attempt_result eng cfg
              (generate k (model cfg) (fst (fst (strict_output eng generate cfg) ! k))))
   \<and> (fst (strict_output eng generate cfg) \<noteq> [] \<longrightarrow>
        fst (fst (strict_output eng generate cfg) ! 0) = prompt eng cfg [])
   \<and> (Suc k < length (fst (strict_output eng generate cfg)) \<longrightarrow>
        (\<exists>m. snd (fst (strict_output eng generate cfg) ! k) = Inl m
           \<and> fst (fst (strict_output eng generate cfg) ! Suc k) = prompt eng cfg (feedback m)))"
proof -
  have 1: "list_all (\<lambda>e. isl (snd e)) (fst (strict_output eng generate cfg)) \<longrightarrow>
      length (fst (strict_output eng generate cfg)) = nat (num_tries cfg)
      \<and> snd (strict_output eng generate cfg) = Inl exhausted_message"
    using attempts_all_failed [of eng generate cfg 0 "[]"] by (simp add: strict_output_def)
  have 2: "(\<forall>i p. int i < num_tries cfg \<longrightarrow>
           isl (attempt_result eng cfg (generate i (model cfg) p))) \<longrightarrow>
        list_all (\<lambda>e. isl (snd e)) (fst (strict_output eng generate cfg))"
  proof
    assume a: "\<forall>i p. int i < num_tries cfg \<longrightarrow> isl (attempt_result eng cfg (generate i (model cfg) p))"
    show "list_all (\<lambda>e. isl (snd e)) (fst (strict_output eng generate cfg))"
      using attempts_all_fail [where generate = generate and i = 0 and error_msg = "[]", OF a]
      by (simp add: strict_output_def list_all_iff)
  qed
  have 3: "snd (strict_output eng generate cfg) = Inl message \<longrightarrow> message = exhausted_message"
    unfolding strict_output_def by (blast dest: attempts_error)
  have 4: "snd (strict_output eng generate cfg) = Inr outputs \<longrightarrow>
        fst (strict_output eng generate cfg) \<noteq> []
        \<and> snd (last (fst (strict_output eng generate cfg))) = Inr outputs"
    unfolding strict_output_def by (blast dest: attempts_result_last)
  note log = attempts_log [of eng generate cfg 0 "[]", folded strict_output_def]
  have 5: "k < length (fst (strict_output eng generate cfg)) \<longrightarrow>
        snd (fst (strict_output eng generate cfg) ! k)
          = attempt_result eng cfg
              (generate k (model cfg) (fst (fst (strict_output eng generate cfg) ! k)))"
    using log by simp
  have 6: "fst (strict_output eng generate cfg) \<noteq> [] \<longrightarrow>
        fst (fst (strict_output eng generate cfg) ! 0) = prompt eng cfg []"
    using log by blast
  have 7: "Suc k < length (fst (strict_output eng generate cfg)) \<longrightarrow>
        (\<exists>m. snd (fst (strict_output eng generate cfg) ! k) = Inl m
           \<and> fst (fst (strict_output eng generate cfg) ! Suc k) = prompt eng cfg (feedback m))"
    using log by blast
  show ?thesis
    by (intro conjI) (rule 1 2 3 4 5 6 7)+
qed

theorem retry_bound_witness:
  "fst (strict_output quiz_engine flaky quiz_config) =
     [(prompt quiz_engine quiz_config [], Inl (js ''quota exceeded'')),
      (prompt quiz_engine quiz_config (feedback (js ''quota exceeded'')), Inl (js ''deadline exceeded'')),
      (prompt quiz_engine quiz_config (feedback (js ''deadline exceeded'')), Inl (js ''deadline exceeded''))]
   \<and> snd (fst (strict_output quiz_engine flaky quiz_config) ! 1)
       = attempt_result quiz_engine quiz_config
           (flaky 1 (model quiz_config) (prompt quiz_engine quiz_config (feedback (js ''quota exceeded''))))
   \<and> length (fst (strict_output quiz_engine flaky quiz_config)) = 3
   \<and> snd (strict_output quiz_engine flaky quiz_config) = Inl exhausted_message
   \<and> fst (strict_output quiz_engine refusing quiz_config) =
     [(prompt quiz_engine quiz_config [], Inl no_json_message),
      (prompt quiz_engine quiz_config (feedback no_json_message), Inl no_json_message),
      (prompt quiz_engine quiz_config (feedback no_json_message), Inl no_json_message)]
   \<and> snd (strict_output quiz_engine refusing quiz_config) = Inl exhausted_message"
proof -
  have n: "nat (num_tries quiz_config) = 3" by (simp add: quiz_config_def)
  have f: "list_all (\<lambda>e. isl (snd e)) (fst (strict_output quiz_engine flaky quiz_config))"
    by (simp add: flaky_log)
  have r: "list_all (\<lambda>e. isl (snd e)) (fst (strict_output quiz_engine refusing quiz_config))"
    by (simp add: refusing_log)
  note tf = retry_bound [of quiz_engine flaky quiz_config _ _ 1]
  note tr = retry_bound [of quiz_engine refusing quiz_config]
  from tf f n have 1: "length (fst (strict_output quiz_engine flaky quiz_config)) = 3"
    and 2: "snd (strict_output quiz_engine flaky quiz_config) = Inl exhausted_message"
    by simp_all
  from tf 1 have "snd (fst (strict_output quiz_engine flaky quiz_config) ! 1)
       = attempt_result quiz_engine quiz_config
           (flaky 1 (model quiz_config) (fst (fst (strict_output quiz_engine flaky quiz_config) ! 1)))"
    by simp
  then have 3: "snd (fst (strict_output quiz_engine flaky quiz_config) ! 1)
       = attempt_result quiz_engine quiz_config
           (flaky 1 (model quiz_config) (prompt quiz_engine quiz_config (feedback (js ''quota exceeded''))))"
    by (simp add: flaky_log)
  from tr r have 4: "snd (strict_output quiz_engine refusing quiz_config) = Inl exhausted_message"
    by simp
  from 1 2 3 4 flaky_log refusing_log show ?thesis by simp
qed



text \<open>
  A key without a placeholder marker that the record lacks does not always make
  the attempt fail: \<^verbatim>\<open>constructor\<close> is a property that every object inherits, so
  \<^verbatim>\<open>"constructor" in item\<close> holds for the record \<^verbatim>\<open>{"k": 1}\<close>, and the call returns
  that record.
\<close>

theorem inherited_key_accepted_counterexample:
  "map fst (output_format constructor_config) = [js ''constructor'']
   \<and> less_sign \<notin> set (js ''constructor'')
   \<and> js ''constructor'' \<notin> fst ` set only_k
   \<and> snd (strict_output constructor_engine constructor_provider constructor_config)
       = Inr [JObject only_k]"
proof -
  have "map fst (output_format constructor_config) = [js ''constructor'']"
    by (simp add: constructor_config_def constructor_format_def)
  moreover have "less_sign \<notin> set (js ''constructor'')" by code_simp
  moreover have "js ''constructor'' \<notin> fst ` set only_k" by code_simp
  ultimately show ?thesis using constructor_run by simp
qed

text \<open>
  C3. Line 87 finds a key in a record when the record has it as its own or
  when it is one of the property names that every object inherits. A record is
  rejected exactly when some key of the format is not found and has no \<^verbatim>\<open><\<close>:
  the absence of a key with a placeholder marker is tolerated, the absence of
  any other key that is not an inherited name is not. A rejected record among
  the parsed items makes the attempt fail. An attempt is made whenever tries
  remain and all attempts before it failed; so the attempt that fails for a
  missing key is followed, while tries remain, by another one whose prompt
  carries the feedback of that failure.
\<close>

theorem missing_key_tolerance:
  "(isl (validate_item eng cfg (JObject item)) \<longleftrightarrow>
      (\<exists>(key, fv) \<in> set (output_format cfg).
          key \<notin> fst ` set item \<and> key \<notin> set object_prototype_names \<and> less_sign \<notin> set key))
   \<and> (json_match (clean_up (trim response)) = Some jsonMatch
        \<and> JSON_parse eng jsonMatch = Inr parsed
        \<and> JObject item \<in> set (to_outputs parsed)
        \<and> (\<exists>(key, fv) \<in> set (output_format cfg).
              key \<notin> fst ` set item \<and> key \<notin> set object_prototype_names \<and> less_sign \<notin> set key)
      \<longrightarrow> isl (attempt_body eng cfg response))
   \<and> (int k < num_tries cfg
        \<and> (\<forall>j<k. j < length (fst (strict_output eng generate cfg))
                  \<and> isl (snd (fst (strict_output eng generate cfg) ! j)))
      \<longrightarrow> k < length (fst (strict_output eng generate cfg)))
   \<and> (k < length (fst (strict_output eng generate cfg))
        \<and> generate k (model cfg) (fst (fst (strict_output eng generate cfg) ! k)) = Inr response
        \<and> json_match (clean_up (trim response)) = Some jsonMatch
        \<and> JSON_parse eng jsonMatch = Inr parsed
        \<and> JObject item \<in> set (to_outputs parsed)
        \<and> (\<exists>(key, fv) \<in> set (output_format cfg).
              key \<notin> fst ` set item \<and> key \<notin> set object_prototype_names \<and> less_sign \<notin> set key)
      \<longrightarrow> isl (snd (fst (strict_output eng generate cfg) ! k))
          \<and> (int (Suc k) < num_tries cfg \<longrightarrow>
                Suc k < length (fst (strict_output eng generate cfg))
                \<and> (\<exists>message.
                      snd (fst (strict_output eng generate cfg) ! k) = Inl message
                      \<and> fst (fst (strict_output eng generate cfg) ! Suc k)
                          = prompt eng cfg (feedback message))))"
proof -
  let ?log = "fst (strict_output eng generate cfg)"
  let ?missing = "\<exists>(key, fv) \<in> set (output_format cfg).
              key \<notin> fst ` set item \<and> key \<notin> set object_prototype_names \<and> less_sign \<notin> set key"
  have a: "isl (validate_item eng cfg (JObject item)) \<longleftrightarrow> ?missing"
    by (simp add: validate_item_isl key_in_def)
  have b: "isl (attempt_body eng cfg response)"
    if "json_match (clean_up (trim response)) = Some jsonMatch"
      "JSON_parse eng jsonMatch = Inr parsed"
      "JObject item \<in> set (to_outputs parsed)" "?missing"
  proof -
    from that(4) a have "isl (loop_body eng cfg (JObject item))"
      by (simp add: loop_body_isl)
    with that(3) have "isl (validate_outputs eng cfg (to_outputs parsed))"
      by (rule validate_outputs_isl)
    with that(1,2) show ?thesis by (simp add: attempt_body_def)
  qed
  have c: "k < length ?log"
    if "int k < num_tries cfg" "\<forall>j<k. j < length ?log \<and> isl (snd (?log ! j))"
    using that by (rule attempt_made)
  note log = attempts_log [of eng generate cfg 0 "[]", folded strict_output_def]
  have d: "isl (snd (?log ! k))
          \<and> (int (Suc k) < num_tries cfg \<longrightarrow>
                Suc k < length ?log
                \<and> (\<exists>message. snd (?log ! k) = Inl message
                      \<and> fst (?log ! Suc k) = prompt eng cfg (feedback message)))"
    if k: "k < length ?log"
      and g: "generate k (model cfg) (fst (?log ! k)) = Inr response"
      and r: "json_match (clean_up (trim response)) = Some jsonMatch"
        "JSON_parse eng jsonMatch = Inr parsed"
        "JObject item \<in> set (to_outputs parsed)" "?missing"
  proof -
    from log k have "snd (?log ! k) = attempt_result eng cfg (generate k (model cfg) (fst (?log ! k)))"
      by simp
    with g have "snd (?log ! k) = attempt_body eng cfg response"
      by (simp add: attempt_result_def)
    with b[OF r] have f: "isl (snd (?log ! k))" by simp
    have "Suc k < length ?log
                \<and> (\<exists>message. snd (?log ! k) = Inl message
                      \<and> fst (?log ! Suc k) = prompt eng cfg (feedback message))"
      if n: "int (Suc k) < num_tries cfg"
    proof -
      from k f n have "Suc k < length ?log"
        unfolding strict_output_def by (intro attempts_retried) simp_all
      with log show ?thesis by blast
    qed
    with f show ?thesis by blast
  qed
  from a b c d show ?thesis by blast
qed

theorem missing_key_tolerance_witness:
  "strict_output forgetful_engine forgetful quiz_config =
     ([(prompt forgetful_engine quiz_config [],
        Inl (missing_key_message forgetful_engine (js ''answer'') partial_record)),
       (prompt forgetful_engine quiz_config
          (feedback (missing_key_message forgetful_engine (js ''answer'') partial_record)),
        Inr [JObject river_record])],
      Inr [JObject river_record])
   \<and> isl (validate_item forgetful_engine quiz_config (JObject partial_record))
   \<and> isl (attempt_body forgetful_engine quiz_config partial_text)
   \<and> isl (snd (fst (strict_output forgetful_engine forgetful quiz_config) ! 0))
   \<and> Suc 0 < length (fst (strict_output forgetful_engine forgetful quiz_config))
   \<and> \<not> isl (validate_item quiz_engine graded_config (JObject graded_item))"
proof -
  let ?log = "fst (strict_output forgetful_engine forgetful quiz_config)"
  note t = missing_key_tolerance
    [of forgetful_engine quiz_config partial_record partial_text partial_text "JObject partial_record"
        0 forgetful]
  have m: "\<exists>(key, fv) \<in> set (output_format quiz_config).
             key \<notin> fst ` set partial_record \<and> key \<notin> set object_prototype_names
             \<and> less_sign \<notin> set key"
    by code_simp
  have j: "json_match (clean_up (trim partial_text)) = Some partial_text" by code_simp
  have p: "JSON_parse forgetful_engine partial_text = Inr (JObject partial_record)" by code_simp
  have o: "JObject partial_record \<in> set (to_outputs (JObject partial_record))"
    by (simp add: to_outputs_def)
  have n: "int 0 < num_tries quiz_config" "int (Suc 0) < num_tries quiz_config"
    by (simp_all add: quiz_config_def)
  have g: "forgetful 0 (model quiz_config) (fst (?log ! 0)) = Inr partial_text"
    by (simp add: forgetful_def)
  from t m have 1: "isl (validate_item forgetful_engine quiz_config (JObject partial_record))"
    by blast
  from t m j p o have 2: "isl (attempt_body forgetful_engine quiz_config partial_text)"
    by blast
  from t n(1) have 3: "0 < length ?log" by simp
  from t 3 g j p o m n(2) have 4: "isl (snd (?log ! 0))" and 5: "Suc 0 < length ?log"
    by blast+
  have 6: "\<not> (\<exists>(key, fv) \<in> set (output_format graded_config).
             key \<notin> fst ` set graded_item \<and> key \<notin> set object_prototype_names
             \<and> less_sign \<notin> set key)"
    by code_simp
  from 6 missing_key_tolerance [of quiz_engine graded_config graded_item]
  have 7: "\<not> isl (validate_item quiz_engine graded_config (JObject graded_item))"
    by blast
  from 1 2 4 5 7 forgetful_run show ?thesis by simp
qed

text \<open>
  C4. With \<^verbatim>\<open>output_value_only\<close> set, line 106 computes the unwrapped form of the
  record (the sole value, or the sequence of values) but assigns it to the loop
  variable; the array that line 110 returns still holds the record. For the
  format \<^verbatim>\<open>{"answer": "a short answer"}\<close> and the validated record
  \<^verbatim>\<open>{"answer": "Paris"}\<close> the loop variable becomes \<^verbatim>\<open>"Paris"\<close>, and the call
  returns the record, not the bare value.
\<close>

theorem values_only_not_unwrapped:
  "output_value_only paris_config
   \<and> loop_body paris_engine paris_config (JObject paris_record)
       = Inr (JObject paris_record, JString (js ''Paris''))
   \<and> snd (strict_output paris_engine paris_provider paris_config)
       = Inr [JObject [(js ''answer'', JString (js ''Paris''))]]"
proof -
  have 1: "output_value_only paris_config" by (simp add: paris_config_def)
  have 2: "loop_body paris_engine paris_config (JObject paris_record)
             = Inr (JObject paris_record, JString (js ''Paris''))"
    by code_simp
  have 3: "snd (strict_output paris_engine paris_provider paris_config)
             = Inr [JObject [(js ''answer'', JString (js ''Paris''))]]"
    by (simp add: paris_run paris_record_def)
  from 1 2 3 show ?thesis by simp
qed

text \<open>
  The span that line 64 takes is not the first balanced object of the text: it
  runs to the last closing brace. And the clean up does not always give JSON
  that is equivalent to the text: it rewrites inside string literals too, so
  the fenced text \<^verbatim>\<open>{'a': 'x, }',}\<close>, whose string is \<^verbatim>\<open>x, }\<close>, becomes
  \<^verbatim>\<open>{"a": "x}"}\<close> and not \<^verbatim>\<open>{"a": "x, }"}\<close>.
\<close>

theorem first_balanced_span_counterexample:
  \<open>spec_first_balanced (clean_up (trim (js ''{"a": 1} or {"b": 2}''))) = Some (js ''{"a": 1}'')
   \<and> json_match (clean_up (trim (js ''{"a": 1} or {"b": 2}''))) = Some (js ''{"a": 1} or {"b": 2}'')
   \<and> json_match (clean_up (trim (js ''{"a": 1} or {"b": 2}'')))
       \<noteq> spec_first_balanced (clean_up (trim (js ''{"a": 1} or {"b": 2}'')))
   \<and> clean_up (trim (js ''```json\<newline>{'a': 'x, }',}\<newline>```'')) = js ''{"a": "x}"}''
   \<and> js ''{"a": "x}"}'' \<noteq> js ''{"a": "x, }"}''\<close>
  by code_simp

text \<open>
  C5. Each pass of the clean up is one scan from the left that rewrites every
  place where it applies, inside a string literal as well as outside. The
  first pass drops the code-fence markers and keeps all the rest: a text
  without a marker is unchanged, the text before the first marker is kept and
  the scan goes on behind the marker, and no marker is left. The second
  replaces every single quote by a double quote and changes nothing else. The
  third drops every comma that is followed by optional white space and a
  closing brace or bracket, together with that white space, and keeps every
  other comma. So a text between a \<^verbatim>\<open>```json\<close> and a \<^verbatim>\<open>```\<close> marker is cleaned to
  its body, trimmed, with the quotes replaced and those commas dropped; the
  text \<^verbatim>\<open>```json\n{'a': 1,}\n```\<close> is cleaned to \<^verbatim>\<open>{"a": 1}\<close>. Line 64 then takes
  the span from the first opening brace or bracket that has a closer of its
  own kind somewhere behind it up to the last such closer; the span need not be
  balanced. When there is no such span, the attempt fails with the message
  \<^verbatim>\<open>No valid JSON object found.\<close>
\<close>

theorem clean_up_and_match:
  \<open>\<not> sublist (js ''```'') (remove_fences s)
   \<and> (\<not> sublist (js ''```'') s \<longrightarrow> remove_fences s = s)
   \<and> (\<not> sublist (js ''```'') (p @ js ''``'') \<longrightarrow>
        remove_fences (p @ js ''```'' @ q)
          = p @ remove_fences (if prefix (js ''json'') q then drop 4 q else q))
   \<and> single_quote \<notin> set (single_to_double s)
   \<and> length (single_to_double s) = length s
   \<and> (\<forall>i < length s.
         single_to_double s ! i = (if s ! i = single_quote then double_quote else s ! i))
   \<and> remove_trailing_commas (a @ comma # b)
       = remove_trailing_commas a @ remove_trailing_commas (comma # b)
   \<and> ((\<forall>w \<in> set ws. is_space w) \<and> (c = rbrace \<or> c = rbracket) \<longrightarrow>
        remove_trailing_commas (comma # ws @ c # b) = c # remove_trailing_commas b)
   \<and> (\<not> closer_next (dropWhile is_space b) \<longrightarrow>
        remove_trailing_commas (comma # b) = comma # remove_trailing_commas b)
   \<and> (comma \<notin> set s \<longrightarrow> remove_trailing_commas s = s)
   \<and> (\<not> sublist (js ''```'') (body @ js ''``'') \<longrightarrow>
        clean_up (js ''```json'' @ body @ js ''```'')
          = remove_trailing_commas (single_to_double (trim body)))
   \<and> (json_match s = None \<longleftrightarrow> (\<forall>t. suffix t s \<longrightarrow> \<not> starts_span t))
   \<and> (json_match s = Some m \<longrightarrow>
        (\<exists>pre inner post. s = pre @ m @ post
           \<and> (\<forall>x y. pre = x @ y \<and> y \<noteq> [] \<longrightarrow> \<not> starts_span (y @ m @ post))
           \<and> ((m = lbrace # inner @ [rbrace] \<and> rbrace \<notin> set post)
              \<or> (m = lbracket # inner @ [rbracket] \<and> rbracket \<notin> set post))))
   \<and> (json_match (clean_up (trim response)) = None \<longrightarrow>
        attempt_body eng cfg response = Inl no_json_message)
   \<and> clean_up (trim (js ''```json\<newline>{'a': 1,}\<newline>```'')) = js ''{"a": 1}''
   \<and> json_match (js ''{"a": 1}'') = Some (js ''{"a": 1}'')\<close>
proof -
  have 1: "\<not> sublist (js ''```'') (remove_fences s)"
    by (rule remove_fences_no_fence)
  have 2: "\<not> sublist (js ''```'') s \<longrightarrow> remove_fences s = s"
    by (simp add: remove_fences_no_marker)
  have 3: "\<not> sublist (js ''```'') (p @ js ''``'') \<longrightarrow>
        remove_fences (p @ js ''```'' @ q)
          = p @ remove_fences (if prefix (js ''json'') q then drop 4 q else q)"
    using remove_fences_first_marker by blast
  have 4: "single_quote \<notin> set (single_to_double s)"
    by (rule single_to_double_no_single)
  have 5: "length (single_to_double s) = length s"
    by (rule length_single_to_double)
  have 6: "\<forall>i < length s.
         single_to_double s ! i = (if s ! i = single_quote then double_quote else s ! i)"
    by (simp add: single_to_double_nth)
  have 7: "remove_trailing_commas (a @ comma # b)
       = remove_trailing_commas a @ remove_trailing_commas (comma # b)"
    by (rule remove_trailing_commas_split)
  have 8: "(\<forall>w \<in> set ws. is_space w) \<and> (c = rbrace \<or> c = rbracket) \<longrightarrow>
        remove_trailing_commas (comma # ws @ c # b) = c # remove_trailing_commas b"
    using remove_trailing_commas_match by blast
  have 9: "\<not> closer_next (dropWhile is_space b) \<longrightarrow>
        remove_trailing_commas (comma # b) = comma # remove_trailing_commas b"
    using remove_trailing_commas_no_match by blast
  have 10: "comma \<notin> set s \<longrightarrow> remove_trailing_commas s = s"
    by (simp add: remove_trailing_commas_id)
  have 11: "\<not> sublist (js ''```'') (body @ js ''``'') \<longrightarrow>
        clean_up (js ''```json'' @ body @ js ''```'')
          = remove_trailing_commas (single_to_double (trim body))"
    using clean_up_wrapped by blast
  have 12: "json_match s = None \<longleftrightarrow> (\<forall>t. suffix t s \<longrightarrow> \<not> starts_span t)"
    by (rule json_match_None)
  have 13: "json_match s = Some m \<longrightarrow>
        (\<exists>pre inner post. s = pre @ m @ post
           \<and> (\<forall>x y. pre = x @ y \<and> y \<noteq> [] \<longrightarrow> \<not> starts_span (y @ m @ post))
           \<and> ((m = lbrace # inner @ [rbrace] \<and> rbrace \<notin> set post)
              \<or> (m = lbracket # inner @ [rbracket] \<and> rbracket \<notin> set post)))"
    using json_match_Some by blast
  have 14: "json_match (clean_up (trim response)) = None \<longrightarrow>
        attempt_body eng cfg response = Inl no_json_message"
    by (simp add: attempt_body_def)
  have 15: \<open>clean_up (trim (js ''```json\<newline>{'a': 1,}\<newline>```'')) = js ''{"a": 1}''\<close>
    by code_simp
  have 16: \<open>json_match (js ''{"a": 1}'') = Some (js ''{"a": 1}'')\<close>
    by code_simp
  show ?thesis
    by (intro conjI) (rule 1 2 3 4 5 6 7 8 9 10 11 12 13 14 15 16)+
qed

theorem clean_up_and_match_witness:
  \<open>remove_trailing_commas (js ''{"a": ["x", ], }'') = js ''{"a": ["x"]}''
   \<and> remove_fences (js ''Here: ```json{"a": 1}``` done'') = js ''Here: {"a": 1} done''
   \<and> clean_up (js ''```json'' @ js ''  {'a': 'b',}  '' @ js ''```'') = js ''{"a": "b"}''
   \<and> json_match (clean_up (trim (js ''I am sorry, I cannot help with that.''))) = None
   \<and> attempt_body quiz_engine quiz_config (js ''I am sorry, I cannot help with that.'')
       = Inl no_json_message\<close>
proof -
  note t = clean_up_and_match
    [of _ \<open>js ''Here: ''\<close> \<open>js ''json{"a": 1}``` done''\<close> \<open>js ''{"a": ["x"''\<close> \<open>js '' ], }''\<close>
        \<open>js '' ''\<close> rbracket \<open>js ''  {'a': 'b',}  ''\<close> _
        \<open>js ''I am sorry, I cannot help with that.''\<close> quiz_engine quiz_config]
  note u = clean_up_and_match
    [of \<open>js '' done''\<close> \<open>js ''{"a": 1}''\<close> \<open>js '' done''\<close> \<open>js ''{"a": ["x"]''\<close> \<open>js '' }''\<close>
        \<open>js '' ''\<close> rbrace]
  have f1: \<open>\<not> sublist (js ''```'') (js ''Here: '' @ js ''``'')\<close> by code_simp
  have f2: \<open>prefix (js ''json'') (js ''json{"a": 1}``` done'')\<close> by code_simp
  have f3: \<open>drop 4 (js ''json{"a": 1}``` done'') = js ''{"a": 1}'' @ js ''```'' @ js '' done''\<close>
    by code_simp
  have f4: \<open>\<not> sublist (js ''```'') (js ''{"a": 1}'' @ js ''``'')\<close> by code_simp
  have f5: \<open>\<not> prefix (js ''json'') (js '' done'')\<close> by code_simp
  have f6: \<open>\<not> sublist (js ''```'') (js '' done'')\<close> by code_simp
  have f7: \<open>js ''Here: '' @ js ''```'' @ js ''json{"a": 1}``` done'' = js ''Here: ```json{"a": 1}``` done''\<close>
    by code_simp
  have f8: \<open>js ''Here: '' @ js ''{"a": 1}'' @ js '' done'' = js ''Here: {"a": 1} done''\<close>
    by code_simp
  from t f1 f2 have \<open>remove_fences (js ''Here: '' @ js ''```'' @ js ''json{"a": 1}``` done'')
      = js ''Here: '' @ remove_fences (drop 4 (js ''json{"a": 1}``` done''))\<close>
    by simp
  also from u f4 f5 have \<open>remove_fences (drop 4 (js ''json{"a": 1}``` done''))
      = js ''{"a": 1}'' @ remove_fences (js '' done'')\<close>
    by (simp add: f3)
  also from u f6 have \<open>remove_fences (js '' done'') = js '' done''\<close> by blast
  finally have b: \<open>remove_fences (js ''Here: ```json{"a": 1}``` done'') = js ''Here: {"a": 1} done''\<close>
    by (simp only: f7 f8)
  have c1: \<open>\<forall>w \<in> set (js '' ''). is_space w\<close> by code_simp
  have c2: \<open>js ''{"a": ["x"'' @ comma # js '' ], }'' = js ''{"a": ["x", ], }''\<close> by code_simp
  have c3: \<open>comma # js '' ], }'' = comma # js '' '' @ rbracket # js '', }''\<close> by code_simp
  have c4: \<open>comma \<notin> set (js ''{"a": ["x"'')\<close> by code_simp
  have c5: \<open>remove_trailing_commas (js '', }'') = js ''}''\<close> by code_simp
  have c6: \<open>js ''{"a": ["x"'' @ rbracket # js ''}'' = js ''{"a": ["x"]}''\<close> by code_simp
  from t have s1: \<open>remove_trailing_commas (js ''{"a": ["x"'' @ comma # js '' ], }'')
      = remove_trailing_commas (js ''{"a": ["x"'') @ remove_trailing_commas (comma # js '' ], }'')\<close>
    by blast
  from clean_up_and_match [of _ _ _ \<open>js ''{"a": ["x"''\<close> \<open>js '', }''\<close> \<open>js '' ''\<close> rbracket] c1
  have s2: \<open>remove_trailing_commas (comma # js '' '' @ rbracket # js '', }'')
      = rbracket # remove_trailing_commas (js '', }'')\<close>
    by blast
  from clean_up_and_match [of \<open>js ''{"a": ["x"''\<close>] c4
  have s3: \<open>remove_trailing_commas (js ''{"a": ["x"'') = js ''{"a": ["x"''\<close>
    by blast
  have a: \<open>remove_trailing_commas (js ''{"a": ["x", ], }'') = js ''{"a": ["x"]}''\<close>
  proof -
    have \<open>remove_trailing_commas (js ''{"a": ["x", ], }'')
        = remove_trailing_commas (js ''{"a": ["x"'' @ comma # js '' ], }'')\<close>
      by (simp only: c2)
    also have \<open>\<dots> = remove_trailing_commas (js ''{"a": ["x"'')
        @ remove_trailing_commas (comma # js '' ], }'')\<close>
      by (rule s1)
    also have \<open>\<dots> = js ''{"a": ["x"''
        @ remove_trailing_commas (comma # js '' '' @ rbracket # js '', }'')\<close>
      by (simp only: s3 c3)
    also have \<open>\<dots> = js ''{"a": ["x"'' @ rbracket # remove_trailing_commas (js '', }'')\<close>
      by (simp only: s2)
    also have \<open>\<dots> = js ''{"a": ["x"'' @ rbracket # js ''}''\<close>
      by (simp only: c5)
    also have \<open>\<dots> = js ''{"a": ["x"]}''\<close>
      by (rule c6)
    finally show ?thesis .
  qed
  have w1: \<open>\<not> sublist (js ''```'') (js ''  {'a': 'b',}  '' @ js ''``'')\<close> by code_simp
  have w2: \<open>remove_trailing_commas (single_to_double (trim (js ''  {'a': 'b',}  ''))) = js ''{"a": "b"}''\<close>
    by code_simp
  from t w1 w2 have w: \<open>clean_up (js ''```json'' @ js ''  {'a': 'b',}  '' @ js ''```'') = js ''{"a": "b"}''\<close>
    by simp
  have n: \<open>json_match (clean_up (trim (js ''I am sorry, I cannot help with that.''))) = None\<close>
    by code_simp
  from t n have e: \<open>attempt_body quiz_engine quiz_config (js ''I am sorry, I cannot help with that.'')
       = Inl no_json_message\<close> by blast
  from a b w n e show ?thesis by simp
qed

text \<open>
  The feedback is not accumulated: when the first attempt fails with one message
  and the second with another, the prompt of the third attempt does not contain
  the feedback marker of the first.
\<close>

theorem feedback_not_accumulated_counterexample:
  "snd (fst (strict_output quiz_engine flaky quiz_config) ! 0) = Inl (js ''quota exceeded'')
   \<and> length (fst (strict_output quiz_engine flaky quiz_config)) = 3
   \<and> \<not> sublist (feedback (js ''quota exceeded''))
         (fst (fst (strict_output quiz_engine flaky quiz_config) ! 2))"
proof -
  have "\<not> sublist (feedback (js ''quota exceeded''))
          (prompt quiz_engine quiz_config (feedback (js ''deadline exceeded'')))"
    by code_simp
  then show ?thesis by (simp add: flaky_log)
qed

text \<open>
  C6. After a failed attempt, line 115 sets \<^verbatim>\<open>error_msg\<close> to a feedback marker that
  holds that attempt's error message. The prompt of the first attempt has no
  feedback; the prompt of every later attempt is built from the feedback marker
  of the attempt just before it, and of no other attempt. Each attempt is the
  provider's answer to its prompt, cleaned, parsed and validated.
\<close>

theorem feedback_of_previous_attempt:
  "(fst (strict_output eng generate cfg) \<noteq> [] \<longrightarrow>
      fst (fst (strict_output eng generate cfg) ! 0) = prompt eng cfg [])
   \<and> (Suc k < length (fst (strict_output eng generate cfg)) \<longrightarrow>
        (\<exists>message.
           snd (fst (strict_output eng generate cfg) ! k) = Inl message
           \<and> fst (fst (strict_output eng generate cfg) ! Suc k) = prompt eng cfg (feedback message)
           \<and> sublist (feedback message) (fst (fst (strict_output eng generate cfg) ! Suc k))))
   \<and> (k < length (fst (strict_output eng generate cfg)) \<longrightarrow>
        snd (fst (strict_output eng generate cfg) ! k)
          = attempt_result eng cfg
              (generate k (model cfg) (fst (fst (strict_output eng generate cfg) ! k))))"
proof -
  have s: "sublist (feedback message) (prompt eng cfg (feedback message))" for message
    unfolding prompt_def sublist_def by (metis append.assoc)
  from attempts_log [of eng generate cfg 0 "[]"] s show ?thesis
    unfolding strict_output_def by (metis add_0)
qed

theorem feedback_of_previous_attempt_witness:
  "fst (fst (strict_output quiz_engine flaky quiz_config) ! 2)
     = prompt quiz_engine quiz_config (feedback (js ''deadline exceeded''))
   \<and> sublist (feedback (js ''deadline exceeded''))
        (fst (fst (strict_output quiz_engine flaky quiz_config) ! 2))"
proof -
  have 1: "Suc 1 < length (fst (strict_output quiz_engine flaky quiz_config))"
    by (simp add: flaky_log)
  have 2: "snd (fst (strict_output quiz_engine flaky quiz_config) ! 1) = Inl (js ''deadline exceeded'')"
    by (simp add: flaky_log)
  from feedback_of_previous_attempt [of quiz_engine flaky quiz_config 1] 1 2
  show ?thesis by (auto simp: numeral_2_eq_2)
qed




text \<open>
  C8. When \<^verbatim>\<open>num_tries\<close> is zero or negative, \<^verbatim>\<open>strict_output\<close> makes no attempt: the
  log is empty, so no prompt is built and the provider is not called, and the
  call ends with the error of line 119. The argument is not rejected up front.
\<close>

theorem no_tries_no_attempt:
  "num_tries cfg \<le> 0 \<Longrightarrow> strict_output eng generate cfg = ([], Inl exhausted_message)"
  by (simp add: strict_output_def attempts_done)

theorem no_tries_no_attempt_witness:
  "strict_output quiz_engine refusing (quiz_config\<lparr>num_tries := - 2\<rparr>) = ([], Inl exhausted_message)"
  using no_tries_no_attempt [of "quiz_config\<lparr>num_tries := - 2\<rparr>" quiz_engine refusing]
  by simp

text \<open>
  C9. When \<^verbatim>\<open>output_value_only\<close> is false, a returned record is the parsed object
  with the same keys in the same order (validation only ever adds a key at the
  end), and every field whose key the format does not declare as a closed set
  of allowed values has the value it had in the parsed object; keys that the
  format does not have are among them. Such extra keys are also never the
  cause of an error: an object is rejected exactly when the object without its
  extra keys is.
\<close>

theorem other_fields_unchanged:
  assumes "\<not> output_value_only cfg"
  shows "(snd (strict_output eng generate cfg) = Inr outputs \<longrightarrow>
          (\<exists>i p response jsonMatch parsed.
             generate i (model cfg) p = Inr response
             \<and> json_match (clean_up (trim response)) = Some jsonMatch
             \<and> JSON_parse eng jsonMatch = Inr parsed
             \<and> length outputs = length (to_outputs parsed)
             \<and> (\<forall>j < length outputs. \<forall>item. to_outputs parsed ! j = JObject item \<longrightarrow>
                   (\<exists>item'. outputs ! j = JObject item'
                      \<and> prefix (map fst item) (map fst item')
                      \<and> (\<forall>k. (\<forall>options. (k, Options options) \<notin> set (output_format cfg)) \<longrightarrow>
                             map_of item' k = map_of item k)))))
       \<and> isl (validate_item eng cfg (JObject item0))
           = isl (validate_item eng cfg
                   (JObject (filter (\<lambda>(k, v). k \<in> fst ` set (output_format cfg)) item0)))"
proof -
  have "\<exists>i p response jsonMatch parsed.
             generate i (model cfg) p = Inr response
             \<and> json_match (clean_up (trim response)) = Some jsonMatch
             \<and> JSON_parse eng jsonMatch = Inr parsed
             \<and> length outputs = length (to_outputs parsed)
             \<and> (\<forall>j < length outputs. \<forall>item. to_outputs parsed ! j = JObject item \<longrightarrow>
                   (\<exists>item'. outputs ! j = JObject item'
                      \<and> prefix (map fst item) (map fst item')
                      \<and> (\<forall>k. (\<forall>options. (k, Options options) \<notin> set (output_format cfg)) \<longrightarrow>
                             map_of item' k = map_of item k)))"
    if ok: "snd (strict_output eng generate cfg) = Inr outputs"
  proof -
    from strict_output_success[OF ok] obtain i p response jsonMatch parsed where
      *: "generate i (model cfg) p = Inr response"
        "json_match (clean_up (trim response)) = Some jsonMatch"
        "JSON_parse eng jsonMatch = Inr parsed"
      and v: "validate_outputs eng cfg (to_outputs parsed) = Inr outputs"
      by blast
    from validate_outputs_nth[OF v] have len: "length outputs = length (to_outputs parsed)"
      and nth: "\<forall>j < length outputs. validate_item eng cfg (to_outputs parsed ! j) = Inr (outputs ! j)"
      by simp_all
    have "\<exists>item'. outputs ! j = JObject item'
            \<and> prefix (map fst item) (map fst item')
            \<and> (\<forall>k. (\<forall>options. (k, Options options) \<notin> set (output_format cfg)) \<longrightarrow>
                   map_of item' k = map_of item k)"
      if j: "j < length outputs" and it: "to_outputs parsed ! j = JObject item" for j item
    proof -
      from nth j have "validate_item eng cfg (to_outputs parsed ! j) = Inr (outputs ! j)" by blast
      then have "validate_item eng cfg (JObject item) = Inr (outputs ! j)" by (simp only: it)
      then obtain item' where c: "check_keys eng cfg (output_format cfg) item = Inr item'"
        and o: "outputs ! j = JObject item'"
        by (auto simp: validate_item_object split: sum.splits)
      from check_keys_keys[OF c] check_keys_frame[OF c] o show ?thesis by blast
    qed
    with * len show ?thesis by blast
  qed
  with extra_keys_ignored [of eng cfg item0] show ?thesis by simp
qed

theorem other_fields_unchanged_witness:
  "\<exists>i p response jsonMatch parsed.
      one_object i (model two_inputs) p = Inr response
      \<and> json_match (clean_up (trim response)) = Some jsonMatch
      \<and> JSON_parse river_engine jsonMatch = Inr parsed
      \<and> length [JObject river_record] = length (to_outputs parsed)
      \<and> (\<forall>j < length [JObject river_record]. \<forall>item. to_outputs parsed ! j = JObject item \<longrightarrow>
            (\<exists>item'. [JObject river_record] ! j = JObject item'
               \<and> prefix (map fst item) (map fst item')
               \<and> (\<forall>k. (\<forall>options. (k, Options options) \<notin> set (output_format two_inputs)) \<longrightarrow>
                      map_of item' k = map_of item k)))"
proof -
  have 1: "\<not> output_value_only two_inputs"
    by (simp add: two_inputs_def quiz_config_def)
  have 2: "snd (strict_output river_engine one_object two_inputs) = Inr [JObject river_record]"
    by (simp add: river_run)
  from other_fields_unchanged [OF 1, of river_engine one_object "[JObject river_record]"] 2
  show ?thesis by blast
qed

text \<open>
  A key that the item lacks is also tolerated when it is a name that every
  object inherits, although it has no \<^verbatim>\<open><\<close>: \<^verbatim>\<open>"toString" in item\<close> holds for the
  empty record.
\<close>

theorem inherited_name_tolerated_counterexample:
  "js ''toString'' \<notin> fst ` set ([] :: properties)
   \<and> less_sign \<notin> set (js ''toString'')
   \<and> check_key quiz_engine quiz_config (js ''toString'', Description (js ''a text'')) [] = Inr []"
  by code_simp

text \<open>
  C10. A key that the item does not have as its own is reported as missing
  (line 89) if and only if it has no \<^verbatim>\<open><\<close> anywhere and is not one of the names
  that every object inherits. No \<^verbatim>\<open>>\<close> is asked for: a missing key with a \<^verbatim>\<open><\<close>
  somewhere is tolerated, the item stays as it is, and validation goes on as if
  the format did not have the key.
\<close>

theorem placeholder_marker:
  assumes "key \<notin> fst ` set item"
  shows "(isl (check_key eng cfg (key, fv) item) \<longleftrightarrow>
            less_sign \<notin> set key \<and> key \<notin> set object_prototype_names)
         \<and> (less_sign \<notin> set key \<and> key \<notin> set object_prototype_names \<longrightarrow>
              check_key eng cfg (key, fv) item = Inl (missing_key_message eng key item))
         \<and> (less_sign \<in> set key \<longrightarrow>
              check_key eng cfg (key, fv) item = Inr item
              \<and> validate_item eng (cfg\<lparr>output_format := (key, fv) # fmt\<rparr>) (JObject item)
                  = validate_item eng (cfg\<lparr>output_format := fmt\<rparr>) (JObject item))"
proof -
  from assms have k: "key_in key item \<longleftrightarrow> key \<in> set object_prototype_names"
    by (simp add: key_in_def)
  have a: "isl (check_key eng cfg (key, fv) item) \<longleftrightarrow>
            less_sign \<notin> set key \<and> key \<notin> set object_prototype_names"
    using k by (auto simp: check_key_isl)
  have b: "less_sign \<notin> set key \<and> key \<notin> set object_prototype_names \<longrightarrow>
              check_key eng cfg (key, fv) item = Inl (missing_key_message eng key item)"
    using k by (simp add: check_key_missing)
  have c: "check_key eng cfg (key, fv) item = Inr item
              \<and> validate_item eng (cfg\<lparr>output_format := (key, fv) # fmt\<rparr>) (JObject item)
                  = validate_item eng (cfg\<lparr>output_format := fmt\<rparr>) (JObject item)"
    if l: "less_sign \<in> set key"
  proof -
    from l have "key \<notin> set object_prototype_names" by (auto dest: prototype_no_less)
    with k have nk: "\<not> key_in key item" by simp
    with l have 1: "check_key eng cfg (key, fv) item = Inr item"
      by (simp add: check_key_missing)
    from nk l have "check_key eng (cfg\<lparr>output_format := (key, fv) # fmt\<rparr>) (key, fv) item = Inr item"
      by (simp add: check_key_missing)
    then have "validate_item eng (cfg\<lparr>output_format := (key, fv) # fmt\<rparr>) (JObject item)
                  = validate_item eng (cfg\<lparr>output_format := fmt\<rparr>) (JObject item)"
      by (simp add: validate_item_object check_keys_cfg)
    with 1 show ?thesis by simp
  qed
  from a b c show ?thesis by blast
qed

theorem placeholder_marker_witness:
  "check_key quiz_engine quiz_config (js ''topic<'', Description (js ''a fact'')) [] = Inr []
   \<and> check_key quiz_engine quiz_config (js ''topic>'', Description (js ''a fact'')) []
       = Inl (missing_key_message quiz_engine (js ''topic>'') [])
   \<and> validate_item quiz_engine
         (quiz_config\<lparr>output_format := (js ''topic<'', Description (js ''a fact'')) # quiz_format\<rparr>)
         (JObject river_record)
       = Inr (JObject river_record)"
proof -
  have 1: "js ''topic<'' \<notin> fst ` set ([] :: properties)" by simp
  have 2: "less_sign \<in> set (js ''topic<'')" by code_simp
  have 3: "js ''topic>'' \<notin> fst ` set ([] :: properties)" by simp
  have 4: "less_sign \<notin> set (js ''topic>'')" by code_simp
  have 5: "js ''topic>'' \<notin> set object_prototype_names" by code_simp
  have 6: "js ''topic<'' \<notin> fst ` set river_record" by code_simp
  have 7: "validate_item quiz_engine (quiz_config\<lparr>output_format := quiz_format\<rparr>)
             (JObject river_record) = Inr (JObject river_record)"
    by code_simp
  from placeholder_marker [OF 1, of quiz_engine quiz_config "Description (js ''a fact'')"] 2
  have a: "check_key quiz_engine quiz_config (js ''topic<'', Description (js ''a fact'')) [] = Inr []"
    by blast
  from placeholder_marker [OF 3, of quiz_engine quiz_config "Description (js ''a fact'')"] 4 5
  have b: "check_key quiz_engine quiz_config (js ''topic>'', Description (js ''a fact'')) []
       = Inl (missing_key_message quiz_engine (js ''topic>'') [])"
    by blast
  from placeholder_marker
    [OF 6, of quiz_engine quiz_config "Description (js ''a fact'')" quiz_format] 2
  have "validate_item quiz_engine
         (quiz_config\<lparr>output_format := (js ''topic<'', Description (js ''a fact'')) # quiz_format\<rparr>)
         (JObject river_record)
       = validate_item quiz_engine (quiz_config\<lparr>output_format := quiz_format\<rparr>)
           (JObject river_record)"
    by blast
  with 7 have c: "validate_item quiz_engine
         (quiz_config\<lparr>output_format := (js ''topic<'', Description (js ''a fact'')) # quiz_format\<rparr>)
         (JObject river_record)
       = Inr (JObject river_record)"
    by simp
  from a b c show ?thesis by simp
qed

end
